theory Spec2Isabelle
  imports Main
begin

section \<open>Data model\<close>

text \<open>
  The executor and the synthesizer pass Python dictionaries around. Each dictionary is
  modelled by a record holding the keys the code reads, a missing key being \<open>None\<close>;
  the remaining keys of a dictionary are kept, with the text Python prints for their
  values, in an association list. A \<open>char\<close> stands for one character of a Python string,
  so \<open>length\<close> and \<open>take\<close> count what \<open>len\<close> and slicing count.
\<close>

text \<open>One entry of a search payload's \<open>results\<close> list.\<close>

record item =
  item_url :: "string option"
  item_title :: "string option"
  item_more :: "(string \<times> string) list"

text \<open>What a tool returns: the keys \<open>results\<close>, \<open>url\<close>, \<open>title\<close>, \<open>text\<close> and the others.\<close>

record payload =
  p_results :: "item list option"
  p_url :: "string option"
  p_title :: "string option"
  p_text :: "string option"
  p_more :: "(string \<times> string) list"

definition empty_payload :: payload where
  "empty_payload =
     \<lparr>p_results = None, p_url = None, p_title = None, p_text = None, p_more = []\<rparr>"

text \<open>
  A \<open>ToolInvocationResult\<close>: the dictionary \<open>execute_tool\<close> returns, with the keys
  \<open>tool\<close>, \<open>success\<close>, \<open>result\<close> and \<open>error\<close>.
\<close>

record tool_result =
  tr_tool :: string
  tr_success :: bool
  tr_result :: "payload option"
  tr_error :: "string option"

text \<open>
  An exception a tool raises and \<open>except Exception\<close> catches; it is known by the
  text \<open>str(e)\<close> gives.
\<close>

datatype exn = Exception string

fun str_exn :: "exn \<Rightarrow> string" where
  "str_exn (Exception m) = m"

text \<open>The keyword arguments of \<open>execute_tool\<close>; an argument not passed is \<open>None\<close>.\<close>

record kwargs =
  kw_query :: "string option"
  kw_url :: "string option"
  kw_text :: "string option"
  kw_data :: "payload list option"
  kw_create_chart :: "bool option"
  kw_expression :: "string option"
  kw_max_length :: "nat option"
  kw_style :: "string option"

definition no_kwargs :: kwargs where
  "no_kwargs =
     \<lparr>kw_query = None, kw_url = None, kw_text = None, kw_data = None,
      kw_create_chart = None, kw_expression = None, kw_max_length = None,
      kw_style = None\<rparr>"

text \<open>
  The method calls \<open>execute_tool\<close> makes on the registered tools:
  \<open>search(query)\<close>, \<open>scrape(url)\<close>, \<open>analyze(text, data, create_chart)\<close>,
  \<open>calculate(expression)\<close> and \<open>summarize(text, max_length, style)\<close>.
\<close>

datatype tool_call =
    Search string
  | Scrape string
  | Analyze "string option" "payload list option" bool
  | Calculate string
  | Summarize string "nat option" string

text \<open>
  The tools are collaborators with caches and network access: a call reads and changes
  the world \<open>'w\<close>, and either raises (\<open>Inl\<close>) or returns a payload (\<open>Inr\<close>).
\<close>

type_synonym 'w env = "tool_call \<Rightarrow> 'w \<Rightarrow> (exn + payload) \<times> 'w"

section \<open>The tool invoker\<close>

text \<open>The keys of \<open>self.tools\<close>.\<close>

definition tools :: "string list" where
  "tools = [''web_search'', ''scraper'', ''data_analysis'', ''calculator'', ''summarizer'']"

definition get_or :: "'a option \<Rightarrow> 'a \<Rightarrow> 'a" where
  "get_or v d = (case v of None \<Rightarrow> d | Some x \<Rightarrow> x)"

text \<open>
  The \<open>if\<close>/\<open>elif\<close> chain of \<open>execute_tool\<close> that picks the method and takes its
  arguments out of the keyword arguments; \<open>None\<close> is the final \<open>else\<close> branch.
\<close>

definition route :: "string \<Rightarrow> kwargs \<Rightarrow> tool_call option" where
  "route tool_name kw =
     (if tool_name = ''web_search'' then Some (Search (get_or (kw_query kw) ''''))
      else if tool_name = ''scraper'' then Some (Scrape (get_or (kw_url kw) ''''))
      else if tool_name = ''data_analysis'' then
        Some (Analyze (kw_text kw) (kw_data kw) (get_or (kw_create_chart kw) False))
      else if tool_name = ''calculator'' then
        Some (Calculate (get_or (kw_expression kw) ''''))
      else if tool_name = ''summarizer'' then
        Some (Summarize (get_or (kw_text kw) '''') (kw_max_length kw)
                (get_or (kw_style kw) ''concise''))
      else None)"

definition failure :: "string \<Rightarrow> string \<Rightarrow> tool_result" where
  "failure tool_name msg =
     \<lparr>tr_tool = tool_name, tr_success = False, tr_result = None, tr_error = Some msg\<rparr>"

definition succeeded :: "string \<Rightarrow> payload \<Rightarrow> tool_result" where
  "succeeded tool_name r =
     \<lparr>tr_tool = tool_name, tr_success = True, tr_result = Some r, tr_error = None\<rparr>"

definition execute_tool :: "'w env \<Rightarrow> string \<Rightarrow> kwargs \<Rightarrow> 'w \<Rightarrow> tool_result \<times> 'w" where
  "execute_tool env tool_name kw w =
     (if tool_name \<notin> set tools then
        (failure tool_name (''Unknown tool: '' @ tool_name), w)
      else
        (case route tool_name kw of
           None \<Rightarrow> (failure tool_name (''Tool execution not implemented: '' @ tool_name), w)
         | Some call \<Rightarrow>
             (case env call w of
                (Inr r, w') \<Rightarrow> (succeeded tool_name r, w')
              | (Inl e, w') \<Rightarrow> (failure tool_name (str_exn e), w'))))"

section \<open>The plan execution pipeline\<close>

text \<open>The thresholds of \<open>config.py\<close>.\<close>

definition MAX_SUB_QUESTIONS :: nat where
  "MAX_SUB_QUESTIONS = 5"

definition MAX_URLS_TO_SCRAPE :: nat where
  "MAX_URLS_TO_SCRAPE = 3"

text \<open>The plan dictionary, with the keys \<open>execute_plan\<close> reads.\<close>

record plan =
  plan_query :: "string option"
  plan_sub_questions :: "string list option"
  plan_tool_sequence :: "string list option"
  plan_more :: "(string \<times> string) list"

text \<open>An entry of the \<open>errors\<close> list.\<close>

record error_entry =
  err_tool :: string
  err_error :: string

text \<open>The dictionary \<open>all_results\<close> that \<open>execute_plan\<close> builds and returns.\<close>

record execution_log =
  log_plan :: plan
  log_tool_results :: "tool_result list"
  log_success :: bool
  log_errors :: "error_entry list"

text \<open>What the loop over the tool sequence changes: the log, the URLs found, the world.\<close>

record 'w run =
  all_results :: execution_log
  urls_to_scrape :: "string list"
  world :: 'w

definition extend_results :: "tool_result list \<Rightarrow> 'w run \<Rightarrow> 'w run" where
  "extend_results rs st =
     st\<lparr>all_results :=
          (all_results st)\<lparr>log_tool_results := log_tool_results (all_results st) @ rs\<rparr>\<rparr>"

text \<open>The URLs one search result adds to \<open>urls_to_scrape\<close>.\<close>

fun item_urls :: "item list \<Rightarrow> string list" where
  "item_urls [] = []"
| "item_urls (i # rest) =
     (case item_url i of None \<Rightarrow> item_urls rest | Some u \<Rightarrow> u # item_urls rest)"

definition collect_urls :: "tool_result \<Rightarrow> string list" where
  "collect_urls r =
     (if tr_success r then
        (case tr_result r of
           None \<Rightarrow> []
         | Some search_data \<Rightarrow>
             (case p_results search_data of None \<Rightarrow> [] | Some items \<Rightarrow> item_urls items))
      else [])"

text \<open>The loop \<open>for question in limited_sub_questions\<close>.\<close>

fun search_loop ::
  "'w env \<Rightarrow> string list \<Rightarrow> tool_result list \<Rightarrow> string list \<Rightarrow> 'w \<Rightarrow>
     tool_result list \<times> string list \<times> 'w" where
  "search_loop env [] search_results urls w = (search_results, urls, w)"
| "search_loop env (question # qs) search_results urls w =
     (case execute_tool env ''web_search'' (no_kwargs\<lparr>kw_query := Some question\<rparr>) w of
        (r, w') \<Rightarrow> search_loop env qs (search_results @ [r]) (urls @ collect_urls r) w')"

definition web_search_stage :: "'w env \<Rightarrow> plan \<Rightarrow> string list \<Rightarrow> 'w run \<Rightarrow> 'w run" where
  "web_search_stage env pl limited st =
     (case
        (if length limited > 3 then
           (case execute_tool env ''web_search''
                   (no_kwargs\<lparr>kw_query := Some (get_or (plan_query pl) (limited ! 0))\<rparr>)
                   (world st) of
              (r, w') \<Rightarrow> ([r], urls_to_scrape st @ collect_urls r, w'))
         else search_loop env limited [] (urls_to_scrape st) (world st)) of
        (search_results, urls, w') \<Rightarrow>
          extend_results search_results (st\<lparr>urls_to_scrape := urls, world := w'\<rparr>))"

text \<open>The loop \<open>for url in urls_to_scrape[:max_urls]\<close>, with its \<open>break\<close>.\<close>

fun scrape_loop ::
  "'w env \<Rightarrow> string list \<Rightarrow> tool_result list \<Rightarrow> 'w \<Rightarrow> tool_result list \<times> 'w" where
  "scrape_loop env [] scrape_results w = (scrape_results, w)"
| "scrape_loop env (url # us) scrape_results w =
     (case execute_tool env ''scraper'' (no_kwargs\<lparr>kw_url := Some url\<rparr>) w of
        (r, w') \<Rightarrow>
          (if length (filter tr_success (scrape_results @ [r])) \<ge> 2
           then (scrape_results @ [r], w')
           else scrape_loop env us (scrape_results @ [r]) w'))"

definition scraper_stage :: "'w env \<Rightarrow> 'w run \<Rightarrow> 'w run" where
  "scraper_stage env st =
     (case scrape_loop env (take MAX_URLS_TO_SCRAPE (urls_to_scrape st)) [] (world st) of
        (scrape_results, w') \<Rightarrow> extend_results scrape_results (st\<lparr>world := w'\<rparr>))"

text \<open>\<open>prev_result.get('result', {}).get('text', '')\<close>.\<close>

definition scraped_text :: "tool_result \<Rightarrow> string" where
  "scraped_text prev_result =
     get_or (p_text (get_or (tr_result prev_result) empty_payload)) []"

text \<open>The buffer \<open>text_to_analyze\<close> of the data analysis stage.\<close>

fun analysis_text :: "tool_result list \<Rightarrow> string \<Rightarrow> string" where
  "analysis_text [] text_to_analyze = text_to_analyze"
| "analysis_text (prev_result # rest) text_to_analyze =
     (if tr_tool prev_result = ''scraper'' \<and> tr_success prev_result
      then analysis_text rest (text_to_analyze @ scraped_text prev_result @ '' '')
      else analysis_text rest text_to_analyze)"

definition data_analysis_stage :: "'w env \<Rightarrow> 'w run \<Rightarrow> 'w run \<times> tool_result option" where
  "data_analysis_stage env st =
     (let text_to_analyze = analysis_text (log_tool_results (all_results st)) []
      in if text_to_analyze \<noteq> [] then
           (case execute_tool env ''data_analysis''
                   (no_kwargs\<lparr>kw_text := Some text_to_analyze, kw_create_chart := Some True\<rparr>)
                   (world st) of
              (r, w') \<Rightarrow> (extend_results [r] (st\<lparr>world := w'\<rparr>), Some r))
         else (st, None))"

text \<open>The buffer \<open>text_to_summarize\<close> of the summarizer stage, with its \<open>break\<close>.\<close>

fun summary_text :: "tool_result list \<Rightarrow> string \<Rightarrow> string" where
  "summary_text [] text_to_summarize = text_to_summarize"
| "summary_text (prev_result # rest) text_to_summarize =
     (if tr_tool prev_result = ''scraper'' \<and> tr_success prev_result
      then
        (if length (text_to_summarize @ take 2000 (scraped_text prev_result) @
                      ''\<newline>\<newline>'') > 3000
         then text_to_summarize @ take 2000 (scraped_text prev_result) @ ''\<newline>\<newline>''
         else summary_text rest
                (text_to_summarize @ take 2000 (scraped_text prev_result) @
                   ''\<newline>\<newline>''))
      else summary_text rest text_to_summarize)"

definition summarizer_stage :: "'w env \<Rightarrow> 'w run \<Rightarrow> 'w run \<times> tool_result option" where
  "summarizer_stage env st =
     (let text_to_summarize = summary_text (log_tool_results (all_results st)) []
      in if text_to_summarize \<noteq> [] then
           (case execute_tool env ''summarizer''
                   (no_kwargs\<lparr>kw_text := Some (take 3000 text_to_summarize),
                      kw_max_length := Some 150, kw_style := Some ''concise''\<rparr>)
                   (world st) of
              (r, w') \<Rightarrow> (extend_results [r] (st\<lparr>world := w'\<rparr>), Some r))
         else (st, None))"

text \<open>The final \<open>else\<close>: \<open>execute_tool(tool_name)\<close> with no argument.\<close>

definition generic_stage :: "'w env \<Rightarrow> string \<Rightarrow> 'w run \<Rightarrow> 'w run \<times> tool_result option" where
  "generic_stage env tool_name st =
     (case execute_tool env tool_name no_kwargs (world st) of
        (r, w') \<Rightarrow> (extend_results [r] (st\<lparr>world := w'\<rparr>), Some r))"

text \<open>
  The check after the stage: \<open>if tool_result and not tool_result.get('success')\<close>.
  A result dictionary is never empty, so \<open>tool_result\<close> is false only when it is
  \<open>None\<close>, its value at the start of every turn of the loop.
\<close>

definition check_errors :: "string \<Rightarrow> 'w run \<times> tool_result option \<Rightarrow> 'w run" where
  "check_errors tool_name sr =
     (case snd sr of
        None \<Rightarrow> fst sr
      | Some tool_result \<Rightarrow>
          (if \<not> tr_success tool_result then
             (fst sr)\<lparr>all_results :=
               (all_results (fst sr))\<lparr>log_errors :=
                  log_errors (all_results (fst sr)) @
                    [\<lparr>err_tool = tool_name,
                      err_error = get_or (tr_error tool_result) ''Unknown error''\<rparr>]\<rparr>\<rparr>
           else fst sr))"

text \<open>
  One turn of the loop \<open>for tool_name in tool_sequence\<close>. The search and the scrape
  branches never assign \<open>tool_result\<close>.
\<close>

definition run_stage :: "'w env \<Rightarrow> plan \<Rightarrow> string list \<Rightarrow> string \<Rightarrow> 'w run \<Rightarrow> 'w run" where
  "run_stage env pl limited tool_name st =
     check_errors tool_name
       (if tool_name = ''web_search'' then (web_search_stage env pl limited st, None)
        else if tool_name = ''scraper'' then (scraper_stage env st, None)
        else if tool_name = ''data_analysis'' then data_analysis_stage env st
        else if tool_name = ''summarizer'' then summarizer_stage env st
        else generic_stage env tool_name st)"

text \<open>\<open>sub_questions or plan.get('sub_questions', [])\<close>, cut to the configured maximum.\<close>

definition limited_sub_questions :: "plan \<Rightarrow> string list option \<Rightarrow> string list" where
  "limited_sub_questions pl sub_questions =
     take MAX_SUB_QUESTIONS
       (if sub_questions = None \<or> sub_questions = Some []
        then get_or (plan_sub_questions pl) []
        else get_or sub_questions [])"

definition initial_run :: "plan \<Rightarrow> 'w \<Rightarrow> 'w run" where
  "initial_run pl w =
     \<lparr>all_results =
        \<lparr>log_plan = pl, log_tool_results = [], log_success = True, log_errors = []\<rparr>,
      urls_to_scrape = [], world = w\<rparr>"

definition execute_plan ::
  "'w env \<Rightarrow> plan \<Rightarrow> string list option \<Rightarrow> 'w \<Rightarrow> execution_log \<times> 'w" where
  "execute_plan env pl sub_questions w =
     (let st = fold (run_stage env pl (limited_sub_questions pl sub_questions))
                 (get_or (plan_tool_sequence pl) []) (initial_run pl w)
      in (all_results st, world st))"

section \<open>The report synthesizer\<close>

record citation =
  c_title :: string
  c_url :: string

text \<open>
  The test \<open>if url and url not in seen_urls\<close> and what follows it, on the pair of
  \<open>citations\<close> and \<open>seen_urls\<close>.
\<close>

definition add_citation ::
  "string \<Rightarrow> string \<Rightarrow> citation list \<times> string set \<Rightarrow> citation list \<times> string set" where
  "add_citation url title acc =
     (if url \<noteq> [] \<and> url \<notin> snd acc
      then (fst acc @ [\<lparr>c_title = (if title \<noteq> [] then title else url), c_url = url\<rparr>],
            insert url (snd acc))
      else acc)"

definition item_citation :: "item \<Rightarrow> citation list \<times> string set \<Rightarrow> citation list \<times> string set" where
  "item_citation i acc = add_citation (get_or (item_url i) []) (get_or (item_title i) []) acc"

text \<open>The body of the loop \<open>for result in tool_results\<close> of \<open>extract_citations\<close>.\<close>

definition result_citations ::
  "tool_result \<Rightarrow> citation list \<times> string set \<Rightarrow> citation list \<times> string set" where
  "result_citations r acc =
     (if \<not> tr_success r then acc
      else if tr_tool r = ''web_search'' then
        fold item_citation (get_or (p_results (get_or (tr_result r) empty_payload)) []) acc
      else if tr_tool r = ''scraper'' then
        add_citation (get_or (p_url (get_or (tr_result r) empty_payload)) [])
          (get_or (p_title (get_or (tr_result r) empty_payload)) []) acc
      else acc)"

definition extract_citations :: "tool_result list \<Rightarrow> citation list" where
  "extract_citations tool_results = fst (fold result_citations tool_results ([], {}))"

text \<open>Python's \<open>str\<close> of a natural number.\<close>

fun str_nat :: "nat \<Rightarrow> string" where
  "str_nat n =
     (if n < 10 then [char_of (48 + n)]
      else str_nat (n div 10) @ [char_of (48 + n mod 10)])"

declare str_nat.simps [simp del]

text \<open>Python's \<open>sep.join(parts)\<close>.\<close>

fun str_join :: "string \<Rightarrow> string list \<Rightarrow> string" where
  "str_join sep [] = []"
| "str_join sep [x] = x"
| "str_join sep (x # y # ys) = x @ sep @ str_join sep (y # ys)"

text \<open>Python's \<open>needle in haystack\<close> on strings.\<close>

fun str_contains :: "string \<Rightarrow> string \<Rightarrow> bool" where
  "str_contains needle [] = (needle = [])"
| "str_contains needle (c # cs) =
     (take (length needle) (c # cs) = needle \<or> str_contains needle cs)"

text \<open>
  Python's \<open>str\<close> of a list of search items and of a payload dictionary: builtins,
  taken as parameters.
\<close>

record pystr =
  str_items :: "item list \<Rightarrow> string"
  str_payload :: "payload \<Rightarrow> string"

text \<open>A dictionary is true when it has a key.\<close>

definition payload_truthy :: "payload \<Rightarrow> bool" where
  "payload_truthy p \<longleftrightarrow>
     p_results p \<noteq> None \<or> p_url p \<noteq> None \<or> p_title p \<noteq> None \<or> p_text p \<noteq> None \<or>
     p_more p \<noteq> []"

text \<open>
  The lists \<open>search_info\<close> and \<open>scraped_content\<close> and the variable
  \<open>data_analysis\<close> of \<open>generate_report\<close>.
\<close>

definition tool_data_of :: "string \<Rightarrow> tool_result list \<Rightarrow> payload list" where
  "tool_data_of tool_name tool_results =
     map (\<lambda>r. get_or (tr_result r) empty_payload)
       (filter (\<lambda>r. tr_success r \<and> tr_tool r = tool_name) tool_results)"

definition last_data_analysis :: "tool_result list \<Rightarrow> payload option" where
  "last_data_analysis tool_results =
     (case rev (tool_data_of ''data_analysis'' tool_results) of
        [] \<Rightarrow> None
      | p # _ \<Rightarrow> Some p)"

fun search_parts :: "pystr \<Rightarrow> payload list \<Rightarrow> string list" where
  "search_parts py [] = []"
| "search_parts py (search # rest) =
     (case p_results search of
        None \<Rightarrow> search_parts py rest
      | Some rs \<Rightarrow>
          (''Search Results:\<newline>'' @ str_items py (take 3 rs)) # search_parts py rest)"

fun scraped_parts :: "payload list \<Rightarrow> string list" where
  "scraped_parts [] = []"
| "scraped_parts (scraped # rest) =
     (case p_text scraped of
        None \<Rightarrow> scraped_parts rest
      | Some t \<Rightarrow>
          (''Content from '' @ get_or (p_title scraped) ''page'' @ '':\<newline>'' @ take 1000 t)
            # scraped_parts rest)"

definition analysis_parts :: "pystr \<Rightarrow> payload option \<Rightarrow> string list" where
  "analysis_parts py data_analysis =
     (case data_analysis of
        None \<Rightarrow> []
      | Some p \<Rightarrow>
          if payload_truthy p then [''Data Analysis:\<newline>'' @ str_payload py p] else [])"

definition build_context :: "pystr \<Rightarrow> tool_result list \<Rightarrow> string" where
  "build_context py tool_results =
     str_join ''\<newline>\<newline>''
       (search_parts py (tool_data_of ''web_search'' tool_results) @
        scraped_parts (take 3 (tool_data_of ''scraper'' tool_results)) @
        analysis_parts py (last_data_analysis tool_results))"

definition system_prompt :: string where
  "system_prompt = ''You are a research report writer. Create a comprehensive, well-structured research report based on the provided information. The report should be professional, accurate, and well-organized.''"

definition build_prompt :: "string \<Rightarrow> string \<Rightarrow> string" where
  "build_prompt query ctx =
     ''Based on the following research query and collected information, create a comprehensive research report in Markdown format.\<newline>\<newline>Research Query: '' @ query @
     ''\<newline>\<newline>Collected Information:\<newline>'' @ ctx @
     ''\<newline>\<newline>Create a report with the following structure:\<newline>1. # Title (based on the query)\<newline>2. ## Executive Summary (2-3 paragraphs)\<newline>3. ## Key Findings (bullet points of main findings)\<newline>4. ## Deep Dive (detailed sections covering different aspects)\<newline>5. ## Data Analysis (if data was found, include tables/charts descriptions)\<newline>6. ## Conclusion (summary and implications)\<newline>7. ## References (list all source URLs)\<newline>\<newline>Make sure to:\<newline>- Synthesize information from multiple sources\<newline>- Provide accurate information\<newline>- Include specific details and numbers when available\<newline>- Write in a professional, academic style\<newline>- Cite sources naturally in the text\<newline>- Format the report properly in Markdown''"

text \<open>The lines \<open>f"{i}. [{citation['title']}]({citation['url']})\n"\<close>, numbered from \<open>i\<close>.\<close>

fun reference_lines :: "nat \<Rightarrow> citation list \<Rightarrow> string" where
  "reference_lines i [] = []"
| "reference_lines i (c # cs) =
     str_nat i @ ''. ['' @ c_title c @ '']('' @ c_url c @ '')\<newline>'' @
     reference_lines (Suc i) cs"

text \<open>The text of the fallback report before its reference lines.\<close>

definition fallback_head :: "string \<Rightarrow> nat \<Rightarrow> string \<Rightarrow> string" where
  "fallback_head query n ctx =
     ''# Research Report: '' @ query @
     ''\<newline>\<newline>## Executive Summary\<newline>\<newline>Research was conducted on: '' @ query @
     ''\<newline>\<newline>## Key Findings\<newline>\<newline>- Information gathered from '' @ str_nat n @
     '' sources\<newline>- Multiple perspectives analyzed\<newline>\<newline>## Deep Dive\<newline>\<newline>'' @
     take 2000 ctx @
     ''\<newline>\<newline>## Conclusion\<newline>\<newline>Research completed with findings from various sources.\<newline>\<newline>## References\<newline>\<newline>''"

text \<open>
  The call \<open>self.llm.generate(prompt, system_prompt, max_tokens, temperature)\<close>; the
  temperature is given in tenths.
\<close>

record generate_args =
  g_prompt :: string
  g_system_prompt :: string
  g_max_tokens :: nat
  g_temperature_tenths :: nat

type_synonym 'w llm = "generate_args \<Rightarrow> 'w \<Rightarrow> (exn + string) \<times> 'w"

definition MAX_RESPONSE_TOKENS :: nat where
  "MAX_RESPONSE_TOKENS = 2000"

record report =
  r_query :: string
  r_markdown :: string
  r_citations :: "citation list"
  r_success :: bool
  r_error :: "string option"

definition generate_report ::
  "pystr \<Rightarrow> 'w llm \<Rightarrow> string \<Rightarrow> plan \<Rightarrow> tool_result list \<Rightarrow> 'w \<Rightarrow> report \<times> 'w" where
  "generate_report py llm query pl tool_results w =
     (let citations = extract_citations tool_results;
          ctx = build_context py tool_results
      in case llm \<lparr>g_prompt = build_prompt query ctx, g_system_prompt = system_prompt,
                    g_max_tokens = min (MAX_RESPONSE_TOKENS * 2) 3000,
                    g_temperature_tenths = 7\<rparr> w of
           (Inr markdown_report, w') \<Rightarrow>
             (\<lparr>r_query = query,
               r_markdown =
                 (if \<not> str_contains ''## References'' markdown_report \<and> citations \<noteq> []
                  then markdown_report @ ''\<newline>\<newline>## References\<newline>\<newline>'' @
                       reference_lines 1 citations
                  else markdown_report),
               r_citations = citations, r_success = True, r_error = None\<rparr>, w')
         | (Inl e, w') \<Rightarrow>
             (\<lparr>r_query = query,
               r_markdown =
                 fallback_head query (length citations) ctx @ reference_lines 1 citations,
               r_citations = citations, r_success = False, r_error = Some (str_exn e)\<rparr>, w'))"

section \<open>Observing the invocations\<close>

text \<open>
  To count the calls a run makes, a collaborator is run in a world that also holds the
  list of the calls made so far; the collaborator itself behaves as before.
\<close>

definition logged :: "'w env \<Rightarrow> ('w \<times> tool_call list) env" where
  "logged env call wl =
     (case env call (fst wl) of (r, w') \<Rightarrow> (r, (w', snd wl @ [call])))"

text \<open>A run state whose world also carries the list of calls, and what a stage adds.\<close>

definition with_log :: "tool_call list \<Rightarrow> 'w run \<Rightarrow> ('w \<times> tool_call list) run" where
  "with_log l st =
     \<lparr>all_results = all_results st, urls_to_scrape = urls_to_scrape st,
      world = (world st, l)\<rparr>"

text \<open>The calls one stage makes from the state \<open>st\<close>, in order.\<close>

definition stage_calls :: "'w env \<Rightarrow> plan \<Rightarrow> string list \<Rightarrow> string \<Rightarrow> 'w run \<Rightarrow> tool_call list" where
  "stage_calls env pl limited tool_name st =
     snd (world (run_stage (logged env) pl limited tool_name (with_log [] st)))"

text \<open>The results one stage appends to \<open>tool_results\<close>, and the errors it records.\<close>

definition stage_results ::
  "'w env \<Rightarrow> plan \<Rightarrow> string list \<Rightarrow> string \<Rightarrow> 'w run \<Rightarrow> tool_result list" where
  "stage_results env pl limited tool_name st =
     drop (length (log_tool_results (all_results st)))
       (log_tool_results (all_results (run_stage env pl limited tool_name st)))"

definition stage_errors ::
  "'w env \<Rightarrow> plan \<Rightarrow> string list \<Rightarrow> string \<Rightarrow> 'w run \<Rightarrow> error_entry list" where
  "stage_errors env pl limited tool_name st =
     drop (length (log_errors (all_results st)))
       (log_errors (all_results (run_stage env pl limited tool_name st)))"

section \<open>Notions the claims are stated with\<close>

text \<open>The texts of the prior successful scraper results, in the order of the log.\<close>

definition scrape_texts :: "tool_result list \<Rightarrow> string list" where
  "scrape_texts rs =
     map scraped_text (filter (\<lambda>r. tr_tool r = ''scraper'' \<and> tr_success r) rs)"

text \<open>
  The pairs of URL and title a result offers to citation extraction, in order, a missing
  key read as the empty string: the items of a successful search result, the one page of
  a successful scrape result, nothing otherwise.
\<close>

definition result_candidates :: "tool_result \<Rightarrow> (string \<times> string) list" where
  "result_candidates r =
     (if \<not> tr_success r then []
      else if tr_tool r = ''web_search'' then
        map (\<lambda>i. (get_or (item_url i) [], get_or (item_title i) []))
          (get_or (p_results (get_or (tr_result r) empty_payload)) [])
      else if tr_tool r = ''scraper'' then
        [(get_or (p_url (get_or (tr_result r) empty_payload)) [],
          get_or (p_title (get_or (tr_result r) empty_payload)) [])]
      else [])"

definition candidates :: "tool_result list \<Rightarrow> (string \<times> string) list" where
  "candidates rs = concat (map result_candidates rs)"

text \<open>
  Deduplication by URL in first-seen order: a pair is kept and every later pair with the
  same URL is dropped.
\<close>

fun first_by_url :: "(string \<times> string) list \<Rightarrow> (string \<times> string) list" where
  "first_by_url [] = []"
| "first_by_url (p # rest) = p # filter (\<lambda>q. fst q \<noteq> fst p) (first_by_url rest)"

text \<open>The citation for a pair: the title, or the URL when the title is empty.\<close>

definition citation_of :: "string \<times> string \<Rightarrow> citation" where
  "citation_of p = \<lparr>c_title = (if snd p \<noteq> [] then snd p else fst p), c_url = fst p\<rparr>"

text \<open>What the summarizer stage appends for one text: its first 2000 characters and a blank line.\<close>

definition chunk :: "string \<Rightarrow> string" where
  "chunk t = take 2000 t @ ''\<newline>\<newline>''"

text \<open>The step of citation extraction for one pair of URL and title.\<close>

definition add_pair ::
  "string \<times> string \<Rightarrow> citation list \<times> string set \<Rightarrow> citation list \<times> string set" where
  "add_pair p acc = add_citation (fst p) (snd p) acc"

section \<open>Sample collaborators and plans\<close>

text \<open>A collaborator whose every call raises \<open>Exception('boom')\<close>.\<close>

definition raising_env :: "unit env" where
  "raising_env call w = (Inl (Exception ''boom''), w)"

text \<open>A plan that only searches, for one sub-question.\<close>

definition search_only_plan :: plan where
  "search_only_plan =
     \<lparr>plan_query = Some ''ai jobs'', plan_sub_questions = Some [''what is ai''],
      plan_tool_sequence = Some [''web_search''], plan_more = []\<rparr>"

text \<open>
  A collaborator whose calls all return: a search finds one page for its query, a scrape
  returns the page's text, the other tools return an empty dictionary.
\<close>

definition sample_env :: "unit env" where
  "sample_env call w =
     (case call of
        Search q \<Rightarrow>
          (Inr (empty_payload\<lparr>p_results :=
                  Some [\<lparr>item_url = Some (''http://'' @ q), item_title = Some q,
                         item_more = []\<rparr>]\<rparr>), w)
      | Scrape u \<Rightarrow>
          (Inr (empty_payload\<lparr>p_url := Some u, p_title := Some ''Page'',
                  p_text := Some ''Text 42''\<rparr>), w)
      | _ \<Rightarrow> (Inr empty_payload, w))"

text \<open>
  A collaborator like \<open>sample_env\<close> whose scrape of \<open>http://bad.org\<close> raises.
\<close>

definition flaky_env :: "unit env" where
  "flaky_env call w =
     (if call = Scrape ''http://bad.org'' then (Inl (Exception ''timeout''), w)
      else sample_env call w)"

text \<open>
  A collaborator whose scrapes all return the dictionary \<open>scrape\<close> returns for an
  invalid URL: empty title and text, and its own \<open>success\<close> key false.
\<close>

definition invalid_url_env :: "unit env" where
  "invalid_url_env call w =
     (case call of
        Scrape u \<Rightarrow>
          (Inr (empty_payload\<lparr>p_url := Some u, p_title := Some [], p_text := Some [],
                  p_more := [(''length'', ''0''), (''success'', ''False''),
                             (''error'', ''Invalid URL'')]\<rparr>), w)
      | _ \<Rightarrow> (Inr empty_payload, w))"

text \<open>A run state in which earlier searches found the given URLs.\<close>

definition run_with_urls :: "string list \<Rightarrow> unit run" where
  "run_with_urls us = (initial_run search_only_plan ())\<lparr>urls_to_scrape := us\<rparr>"

definition five_urls :: "string list" where
  "five_urls = [''http://a.org'', ''http://b.org'', ''http://c.org'', ''http://d.org'',
                ''http://e.org'']"

text \<open>
  The state after one scrape of an invalid URL with \<open>invalid_url_env\<close>: the log
  holds one scraper result with \<open>success = True\<close> and an empty text.
\<close>

definition after_invalid_scrape :: "unit run" where
  "after_invalid_scrape =
     run_stage invalid_url_env search_only_plan [] ''scraper'' (run_with_urls [''not a url''])"

text \<open>The state after sample scrapes of two pages.\<close>

definition after_two_scrapes :: "unit run" where
  "after_two_scrapes =
     run_stage sample_env search_only_plan [] ''scraper'' (run_with_urls five_urls)"

text \<open>A collaborator whose scrapes return a text of 2500 characters.\<close>

definition long_text_env :: "unit env" where
  "long_text_env call w =
     (case call of
        Scrape u \<Rightarrow>
          (Inr (empty_payload\<lparr>p_url := Some u, p_title := Some ''Long'',
                  p_text := Some (replicate 2500 CHR ''x'')\<rparr>), w)
      | _ \<Rightarrow> (Inr empty_payload, w))"

definition after_long_scrapes :: "unit run" where
  "after_long_scrapes =
     fold (run_stage long_text_env search_only_plan []) [''scraper'', ''scraper'']
       (run_with_urls five_urls)"

text \<open>
  Two search results that both contain \<open>http://a.org\<close>, under different titles, and
  a scrape of the same page.
\<close>

definition duplicate_results :: "tool_result list" where
  "duplicate_results =
     [succeeded ''web_search''
        (empty_payload\<lparr>p_results :=
           Some [\<lparr>item_url = Some ''http://a.org'', item_title = Some ''First'', item_more = []\<rparr>,
                 \<lparr>item_url = Some ''http://b.org'', item_title = None, item_more = []\<rparr>]\<rparr>),
      failure ''web_search'' ''boom'',
      succeeded ''web_search''
        (empty_payload\<lparr>p_results :=
           Some [\<lparr>item_url = Some ''http://c.org'', item_title = Some ''Third'', item_more = []\<rparr>,
                 \<lparr>item_url = Some ''http://a.org'', item_title = Some ''Second'',
                   item_more = []\<rparr>]\<rparr>),
      succeeded ''scraper''
        (empty_payload\<lparr>p_url := Some ''http://a.org'', p_title := Some ''Page'',
           p_text := Some ''Text 42''\<rparr>)]"

text \<open>A generation collaborator that raises, one that answers, and a stand-in for \<open>str\<close>.\<close>

definition failing_llm :: "unit llm" where
  "failing_llm args w = (Inl (Exception ''Groq API error: timeout''), w)"

definition answering_llm :: "unit llm" where
  "answering_llm args w = (Inr ''# Report'', w)"

definition sample_pystr :: pystr where
  "sample_pystr = \<lparr>str_items = (\<lambda>_. ''[items]''), str_payload = (\<lambda>_. ''{payload}'')\<rparr>"

section \<open>The tool invoker: properties\<close>

lemma route_registered: "tool_name \<in> set tools \<Longrightarrow> route tool_name kw \<noteq> None"
  by (auto simp: tools_def route_def)

lemma execute_tool_unknown:
  "tool_name \<notin> set tools \<Longrightarrow>
     execute_tool env tool_name kw w = (failure tool_name (''Unknown tool: '' @ tool_name), w)"
  by (simp add: execute_tool_def)

lemma execute_tool_raise:
  "tool_name \<in> set tools \<Longrightarrow> route tool_name kw = Some call \<Longrightarrow>
   env call w = (Inl e, w') \<Longrightarrow>
     execute_tool env tool_name kw w = (failure tool_name (str_exn e), w')"
  by (simp add: execute_tool_def)

lemma execute_tool_return:
  "tool_name \<in> set tools \<Longrightarrow> route tool_name kw = Some call \<Longrightarrow>
   env call w = (Inr r, w') \<Longrightarrow>
     execute_tool env tool_name kw w = (succeeded tool_name r, w')"
  by (simp add: execute_tool_def)

text \<open>
  Claim C6. \<open>execute_tool\<close> is a total function to results: whatever the name, the
  keyword arguments and the behaviour of the tool, it returns a result dictionary.
  For a name outside the registry the result has \<open>success = False\<close> and the error
  \<open>Unknown tool: <name>\<close>, and no tool is called. A registered name is always routed
  to a method call, and when that call raises an exception the result has
  \<open>success = False\<close> and the error is the text of the exception.
\<close>

theorem execute_tool_never_raises:
  "(tool_name \<notin> set tools \<longrightarrow>
      execute_tool env tool_name kw w =
        (\<lparr>tr_tool = tool_name, tr_success = False, tr_result = None,
          tr_error = Some (''Unknown tool: '' @ tool_name)\<rparr>, w)) \<and>
   (tool_name \<in> set tools \<longrightarrow> route tool_name kw \<noteq> None) \<and>
   (tool_name \<in> set tools \<longrightarrow> route tool_name kw = Some call \<longrightarrow>
      env call w = (Inl e, w') \<longrightarrow>
      execute_tool env tool_name kw w =
        (\<lparr>tr_tool = tool_name, tr_success = False, tr_result = None,
          tr_error = Some (str_exn e)\<rparr>, w'))"
  using execute_tool_unknown [of tool_name env kw w]
    execute_tool_raise [of tool_name kw call env w e w']
    route_registered [of tool_name kw]
  by (simp add: failure_def)

theorem execute_tool_never_raises_witness:
  "''unknown_tool'' \<notin> set tools \<and>
   execute_tool raising_env ''unknown_tool'' no_kwargs () =
     (\<lparr>tr_tool = ''unknown_tool'', tr_success = False, tr_result = None,
       tr_error = Some ''Unknown tool: unknown_tool''\<rparr>, ()) \<and>
   ''scraper'' \<in> set tools \<and>
   route ''scraper'' (no_kwargs\<lparr>kw_url := Some ''http://a.org''\<rparr>) =
     Some (Scrape ''http://a.org'') \<and>
   raising_env (Scrape ''http://a.org'') () = (Inl (Exception ''boom''), ()) \<and>
   execute_tool raising_env ''scraper'' (no_kwargs\<lparr>kw_url := Some ''http://a.org''\<rparr>) () =
     (\<lparr>tr_tool = ''scraper'', tr_success = False, tr_result = None,
       tr_error = Some ''boom''\<rparr>, ())"
  using execute_tool_never_raises [of "''unknown_tool''" raising_env no_kwargs "()"]
    execute_tool_never_raises [of "''scraper''" raising_env
      "no_kwargs\<lparr>kw_url := Some ''http://a.org''\<rparr>" "()" "Scrape ''http://a.org''"
      "Exception ''boom''" "()"]
  by (simp add: tools_def route_def raising_env_def no_kwargs_def get_or_def)

section \<open>The plan execution pipeline: properties\<close>

lemma extend_results_simps [simp]:
  "log_success (all_results (extend_results rs st)) = log_success (all_results st)"
  "log_errors (all_results (extend_results rs st)) = log_errors (all_results st)"
  "log_plan (all_results (extend_results rs st)) = log_plan (all_results st)"
  "log_tool_results (all_results (extend_results rs st)) =
     log_tool_results (all_results st) @ rs"
  "urls_to_scrape (extend_results rs st) = urls_to_scrape st"
  "world (extend_results rs st) = world st"
  by (simp_all add: extend_results_def)

lemma check_errors_simps [simp]:
  "log_success (all_results (check_errors t sr)) = log_success (all_results (fst sr))"
  "log_plan (all_results (check_errors t sr)) = log_plan (all_results (fst sr))"
  "log_tool_results (all_results (check_errors t sr)) = log_tool_results (all_results (fst sr))"
  "urls_to_scrape (check_errors t sr) = urls_to_scrape (fst sr)"
  "world (check_errors t sr) = world (fst sr)"
  by (simp_all add: check_errors_def split: option.splits)

lemma check_errors_None [simp]: "check_errors t (st, None) = st"
  by (simp add: check_errors_def)

lemma web_search_stage_success [simp]:
  "log_success (all_results (web_search_stage env pl lim st)) = log_success (all_results st)"
  by (simp add: web_search_stage_def split: prod.splits)

lemma scraper_stage_success [simp]:
  "log_success (all_results (scraper_stage env st)) = log_success (all_results st)"
  by (simp add: scraper_stage_def split: prod.splits)

lemma data_analysis_stage_success [simp]:
  "log_success (all_results (fst (data_analysis_stage env st))) = log_success (all_results st)"
  by (simp add: data_analysis_stage_def Let_def split: prod.splits)

lemma summarizer_stage_success [simp]:
  "log_success (all_results (fst (summarizer_stage env st))) = log_success (all_results st)"
  by (simp add: summarizer_stage_def Let_def split: prod.splits)

lemma generic_stage_success [simp]:
  "log_success (all_results (fst (generic_stage env t st))) = log_success (all_results st)"
  by (simp add: generic_stage_def split: prod.splits)

lemma run_stage_success:
  "log_success (all_results (run_stage env pl lim t st)) = log_success (all_results st)"
  by (simp add: run_stage_def)

lemma fold_run_stage_success:
  "log_success (all_results (fold (run_stage env pl lim) ts st)) = log_success (all_results st)"
  by (induction ts arbitrary: st) (simp_all add: run_stage_success)

text \<open>
  Claim C4. For every plan, every sub-question argument and every behaviour of the
  tools, the log \<open>execute_plan\<close> returns has \<open>success = True\<close>: the flag starts true
  and no stage changes it, however many invocations failed.
\<close>

theorem execute_plan_success_always_true:
  "log_success (fst (execute_plan env pl sub_questions w)) = True"
  by (simp add: execute_plan_def Let_def fold_run_stage_success initial_run_def)

text \<open>
  Claim C1, at a plan whose search fails. The search tool raises, the failed result is
  appended to \<open>tool_results\<close>, and \<open>errors\<close> stays empty: the search branch leaves
  \<open>tool_result\<close> unset, so the check after the stage records nothing.
\<close>

theorem execute_plan_search_failure_not_in_errors:
  "execute_plan raising_env search_only_plan None () =
     (\<lparr>log_plan = search_only_plan,
       log_tool_results =
         [\<lparr>tr_tool = ''web_search'', tr_success = False, tr_result = None,
           tr_error = Some ''boom''\<rparr>],
       log_success = True, log_errors = []\<rparr>, ())"
  by (simp add: execute_plan_def search_only_plan_def limited_sub_questions_def
      MAX_SUB_QUESTIONS_def get_or_def initial_run_def run_stage_def web_search_stage_def
      execute_tool_def tools_def route_def raising_env_def no_kwargs_def failure_def
      extend_results_def collect_urls_def)

section \<open>Invocations of the stages\<close>

lemma execute_tool_logged:
  "execute_tool (logged env) t kw (w, l) =
     (fst (execute_tool env t kw w),
      (snd (execute_tool env t kw w),
       l @ (if t \<in> set tools then (case route t kw of None \<Rightarrow> [] | Some c \<Rightarrow> [c]) else [])))"
  by (simp add: execute_tool_def logged_def split: option.splits prod.splits sum.splits)

lemma route_web_search [simp]:
  "route ''web_search'' (no_kwargs\<lparr>kw_query := Some q\<rparr>) = Some (Search q)"
  by (simp add: route_def get_or_def no_kwargs_def)

lemma route_scraper [simp]:
  "route ''scraper'' (no_kwargs\<lparr>kw_url := Some u\<rparr>) = Some (Scrape u)"
  by (simp add: route_def get_or_def no_kwargs_def)

lemma registered [simp]:
  "''web_search'' \<in> set tools" "''scraper'' \<in> set tools" "''data_analysis'' \<in> set tools"
  "''summarizer'' \<in> set tools"
  by (simp_all add: tools_def)

lemma search_loop_logged:
  "search_loop (logged env) qs acc urls (w, l) =
     (case search_loop env qs acc urls w of
        (rs, us, w') \<Rightarrow> (rs, us, (w', l @ map Search qs)))"
  by (induction qs arbitrary: acc urls w l)
     (simp_all add: execute_tool_logged split: prod.splits)

lemma search_loop_results:
  "\<exists>new. fst (search_loop env qs acc urls w) = acc @ new \<and> length new = length qs"
proof (induction qs arbitrary: acc urls w)
  case Nil
  then show ?case by simp
next
  case (Cons q qs)
  obtain r w' where e: "execute_tool env ''web_search'' (no_kwargs\<lparr>kw_query := Some q\<rparr>) w = (r, w')"
    by (cases "execute_tool env ''web_search'' (no_kwargs\<lparr>kw_query := Some q\<rparr>) w")
  from Cons.IH [of "acc @ [r]" "urls @ collect_urls r" w'] obtain new where
    n: "fst (search_loop env qs (acc @ [r]) (urls @ collect_urls r) w') = (acc @ [r]) @ new"
       "length new = length qs"
    by blast
  show ?case
    using e n by (intro exI [of _ "r # new"]) simp
qed

lemma with_log_simps [simp]:
  "all_results (with_log l st) = all_results st"
  "urls_to_scrape (with_log l st) = urls_to_scrape st"
  "world (with_log l st) = (world st, l)"
  by (simp_all add: with_log_def)

lemma extend_results_with_log:
  "extend_results rs (with_log l st) = with_log l (extend_results rs st)"
  by (simp add: extend_results_def with_log_def)

lemma web_search_stage_logged:
  "web_search_stage (logged env) pl lim (with_log l st) =
     with_log (l @ (if length lim > 3 then [Search (get_or (plan_query pl) (lim ! 0))]
      else map Search lim)) (web_search_stage env pl lim st)"
  by (simp add: web_search_stage_def execute_tool_logged search_loop_logged
      with_log_def extend_results_def split: prod.splits)

lemma execute_tool_tool [simp]: "tr_tool (fst (execute_tool env t kw w)) = t"
  by (simp add: execute_tool_def failure_def succeeded_def split: option.splits prod.splits sum.splits)

lemma scrape_loop_new:
  "\<exists>new. fst (scrape_loop env us acc w) = acc @ new \<and> length new \<le> length us \<and>
     (\<forall>r\<in>set new. \<exists>u w'. r = fst (execute_tool env ''scraper'' (no_kwargs\<lparr>kw_url := Some u\<rparr>) w')) \<and>
     (length (filter tr_success acc) < 2 \<longrightarrow>
        length (filter tr_success (acc @ new)) \<le> 2 \<and>
        (new \<noteq> [] \<longrightarrow> length (filter tr_success (acc @ butlast new)) < 2) \<and>
        (length new < length us \<longrightarrow> length (filter tr_success (acc @ new)) = 2))"
proof (induction us arbitrary: acc w)
  case Nil
  then show ?case by simp
next
  case (Cons u us)
  obtain r w' where e: "execute_tool env ''scraper'' (no_kwargs\<lparr>kw_url := Some u\<rparr>) w = (r, w')"
    by (cases "execute_tool env ''scraper'' (no_kwargs\<lparr>kw_url := Some u\<rparr>) w")
  have t: "\<exists>u w'. r = fst (execute_tool env ''scraper'' (no_kwargs\<lparr>kw_url := Some u\<rparr>) w')"
    using e by (metis fst_conv)
  show ?case
  proof (cases "length (filter tr_success (acc @ [r])) \<ge> 2")
    case True
    then show ?thesis
      using e t by (intro exI [of _ "[r]"]) (auto split: if_splits)
  next
    case False
    from Cons.IH [of "acc @ [r]" w'] obtain new where
      n: "fst (scrape_loop env us (acc @ [r]) w') = (acc @ [r]) @ new" "length new \<le> length us"
         "\<forall>r\<in>set new. \<exists>u w'. r = fst (execute_tool env ''scraper'' (no_kwargs\<lparr>kw_url := Some u\<rparr>) w')"
         "length (filter tr_success (acc @ [r])) < 2 \<longrightarrow>
            length (filter tr_success ((acc @ [r]) @ new)) \<le> 2 \<and>
            (new \<noteq> [] \<longrightarrow> length (filter tr_success ((acc @ [r]) @ butlast new)) < 2) \<and>
            (length new < length us \<longrightarrow> length (filter tr_success ((acc @ [r]) @ new)) = 2)"
      by blast
    show ?thesis
      using e t n False by (intro exI [of _ "r # new"]) (auto split: if_splits)
  qed
qed

lemma scrape_loop_logged:
  "scrape_loop (logged env) us acc (w, l) =
     (case scrape_loop env us acc w of
        (rs, w') \<Rightarrow> (rs, (w', l @ map Scrape (take (length rs - length acc) us))))"
proof (induction us arbitrary: acc w l)
  case Nil
  then show ?case by simp
next
  case (Cons u us)
  obtain r w' where e: "execute_tool env ''scraper'' (no_kwargs\<lparr>kw_url := Some u\<rparr>) w = (r, w')"
    by (cases "execute_tool env ''scraper'' (no_kwargs\<lparr>kw_url := Some u\<rparr>) w")
  obtain rs w'' where s: "scrape_loop env us (acc @ [r]) w' = (rs, w'')"
    by (cases "scrape_loop env us (acc @ [r]) w'")
  obtain new where n: "rs = (acc @ [r]) @ new"
    using scrape_loop_new [of env us "acc @ [r]" w'] s by auto
  have "length rs - length acc = Suc (length rs - Suc (length acc))"
    using n by simp
  then show ?case
    using e s Cons.IH [of "acc @ [r]" w' "l @ [Scrape u]"]
    by (simp add: execute_tool_logged)
qed

lemma scraper_stage_logged:
  "scraper_stage (logged env) (with_log l st) =
     with_log (l @ map Scrape
        (take (length (log_tool_results (all_results (scraper_stage env st))) -
               length (log_tool_results (all_results st)))
          (take MAX_URLS_TO_SCRAPE (urls_to_scrape st))))
       (scraper_stage env st)"
  by (simp add: scraper_stage_def scrape_loop_logged with_log_def extend_results_def
      split: prod.splits)

lemma route_data_analysis [simp]:
  "route ''data_analysis'' (no_kwargs\<lparr>kw_text := Some t, kw_create_chart := Some True\<rparr>) =
     Some (Analyze (Some t) None True)"
  by (simp add: route_def get_or_def no_kwargs_def)

lemma route_summarizer [simp]:
  "route ''summarizer'' (no_kwargs\<lparr>kw_text := Some t, kw_max_length := Some n,
      kw_style := Some s\<rparr>) = Some (Summarize t (Some n) s)"
  by (simp add: route_def get_or_def no_kwargs_def)

lemma data_analysis_stage_logged:
  "data_analysis_stage (logged env) (with_log l st) =
     (with_log (l @ (if analysis_text (log_tool_results (all_results st)) [] \<noteq> []
                     then [Analyze (Some (analysis_text (log_tool_results (all_results st)) []))
                             None True]
                     else []))
        (fst (data_analysis_stage env st)), snd (data_analysis_stage env st))"
  by (simp add: data_analysis_stage_def Let_def execute_tool_logged with_log_def
      extend_results_def split: prod.splits)

lemma summarizer_stage_logged:
  "summarizer_stage (logged env) (with_log l st) =
     (with_log (l @ (if summary_text (log_tool_results (all_results st)) [] \<noteq> []
                     then [Summarize (take 3000 (summary_text (log_tool_results (all_results st)) []))
                             (Some 150) ''concise'']
                     else []))
        (fst (summarizer_stage env st)), snd (summarizer_stage env st))"
  by (simp add: summarizer_stage_def Let_def execute_tool_logged with_log_def
      extend_results_def split: prod.splits)

lemma generic_stage_logged:
  "generic_stage (logged env) t (with_log l st) =
     (with_log (l @ (if t \<in> set tools then (case route t no_kwargs of None \<Rightarrow> [] | Some c \<Rightarrow> [c])
                     else []))
        (fst (generic_stage env t st)), snd (generic_stage env t st))"
  by (simp add: generic_stage_def execute_tool_logged with_log_def
      extend_results_def split: prod.splits)

lemma check_errors_with_log:
  "check_errors t (with_log l st, r) = with_log l (check_errors t (st, r))"
  by (simp add: check_errors_def with_log_def split: option.splits)

lemma run_stage_web_search:
  "run_stage env pl lim ''web_search'' st = web_search_stage env pl lim st"
  by (simp add: run_stage_def)

lemma run_stage_scraper: "run_stage env pl lim ''scraper'' st = scraper_stage env st"
  by (simp add: run_stage_def)

lemma run_stage_data_analysis:
  "run_stage env pl lim ''data_analysis'' st =
     check_errors ''data_analysis'' (data_analysis_stage env st)"
  by (simp add: run_stage_def)

lemma run_stage_summarizer:
  "run_stage env pl lim ''summarizer'' st =
     check_errors ''summarizer'' (summarizer_stage env st)"
  by (simp add: run_stage_def)

lemma run_stage_generic:
  "t \<noteq> ''web_search'' \<Longrightarrow> t \<noteq> ''scraper'' \<Longrightarrow> t \<noteq> ''data_analysis'' \<Longrightarrow>
   t \<noteq> ''summarizer'' \<Longrightarrow>
     run_stage env pl lim t st = check_errors t (generic_stage env t st)"
  by (simp add: run_stage_def)

lemma check_errors_with_log_pair:
  "check_errors t (with_log l (fst sr), snd sr) = with_log l (check_errors t sr)"
  using check_errors_with_log [of t l "fst sr" "snd sr"] by simp

lemma run_stage_logged:
  "\<exists>calls. run_stage (logged env) pl lim t (with_log l st) =
     with_log (l @ calls) (run_stage env pl lim t st)"
proof -
  consider (search) "t = ''web_search''" | (scrape) "t = ''scraper''"
    | (analysis) "t = ''data_analysis''" | (summary) "t = ''summarizer''"
    | (other) "t \<noteq> ''web_search''" "t \<noteq> ''scraper''" "t \<noteq> ''data_analysis''"
        "t \<noteq> ''summarizer''"
    by blast
  then show ?thesis
  proof cases
    case search
    show ?thesis
      unfolding search run_stage_web_search web_search_stage_logged by blast
  next
    case scrape
    show ?thesis
      unfolding scrape run_stage_scraper scraper_stage_logged by blast
  next
    case analysis
    show ?thesis
      unfolding analysis run_stage_data_analysis data_analysis_stage_logged
        check_errors_with_log_pair by blast
  next
    case summary
    show ?thesis
      unfolding summary run_stage_summarizer summarizer_stage_logged
        check_errors_with_log_pair by blast
  next
    case other
    show ?thesis
      unfolding run_stage_generic [OF other] generic_stage_logged
        check_errors_with_log_pair by blast
  qed
qed

lemma fold_run_stage_logged:
  "\<exists>calls. fold (run_stage (logged env) pl lim) ts (with_log l st) =
     with_log (l @ calls) (fold (run_stage env pl lim) ts st)"
proof (induction ts arbitrary: l st)
  case Nil
  show ?case by (simp, rule exI [of _ "[]"], simp)
next
  case (Cons t ts)
  obtain c1 where c1: "run_stage (logged env) pl lim t (with_log l st) =
     with_log (l @ c1) (run_stage env pl lim t st)"
    using run_stage_logged by blast
  obtain c2 where c2: "fold (run_stage (logged env) pl lim) ts
       (with_log (l @ c1) (run_stage env pl lim t st)) =
     with_log ((l @ c1) @ c2) (fold (run_stage env pl lim) ts (run_stage env pl lim t st))"
    using Cons.IH by blast
  show ?case
    by (rule exI [of _ "c1 @ c2"]) (simp add: c1 c2)
qed

lemma stage_calls_web_search:
  "stage_calls env pl lim ''web_search'' st =
     (if length lim > 3 then [Search (get_or (plan_query pl) (lim ! 0))] else map Search lim)"
  by (simp add: stage_calls_def run_stage_web_search web_search_stage_logged)

lemma web_search_stage_results:
  "\<exists>new. log_tool_results (all_results (web_search_stage env pl lim st)) =
           log_tool_results (all_results st) @ new \<and>
         length new = (if length lim > 3 then 1 else length lim)"
proof (cases "length lim > 3")
  case True
  then show ?thesis
    by (simp add: web_search_stage_def split: prod.splits)
next
  case False
  obtain new where n: "fst (search_loop env lim [] (urls_to_scrape st) (world st)) = [] @ new"
       "length new = length lim"
    using search_loop_results [of env lim "[]"] by blast
  show ?thesis
    using False n by (auto simp: web_search_stage_def split: prod.splits)
qed

lemma stage_results_web_search:
  "length (stage_results env pl lim ''web_search'' st) =
     (if length lim > 3 then 1 else length lim)"
  using web_search_stage_results [of env pl lim st]
  by (auto simp: stage_results_def run_stage_web_search)

lemma limited_le: "length (limited_sub_questions pl sq) \<le> 5"
  by (simp add: limited_sub_questions_def MAX_SUB_QUESTIONS_def)

lemma limited_Some: "qs \<noteq> [] \<Longrightarrow> limited_sub_questions pl (Some qs) = take 5 qs"
  by (simp add: limited_sub_questions_def MAX_SUB_QUESTIONS_def get_or_def)

text \<open>
  Claim C2. The sub-question list is cut to at most 5 entries. A \<open>web_search\<close> stage
  then makes exactly one search call, with the plan's query (the first sub-question when
  the plan has no \<open>query\<close> key), if the cut list has more than 3 entries, and
  otherwise exactly one search call per sub-question, in order; each call appends one
  result. With 4 sub-questions there is 1 call, with 3 there are 3.
\<close>

theorem web_search_stage_invocations:
  "length (limited_sub_questions pl sq) \<le> 5 \<and>
   (qs \<noteq> [] \<longrightarrow> limited_sub_questions pl (Some qs) = take 5 qs) \<and>
   stage_calls env pl (limited_sub_questions pl sq) ''web_search'' st =
     (if length (limited_sub_questions pl sq) > 3
      then [Search (get_or (plan_query pl) (limited_sub_questions pl sq ! 0))]
      else map Search (limited_sub_questions pl sq)) \<and>
   length (stage_results env pl (limited_sub_questions pl sq) ''web_search'' st) =
     length (stage_calls env pl (limited_sub_questions pl sq) ''web_search'' st) \<and>
   (plan_query pl = Some q \<longrightarrow> length (limited_sub_questions pl sq) > 3 \<longrightarrow>
      stage_calls env pl (limited_sub_questions pl sq) ''web_search'' st = [Search q]) \<and>
   (length qs = 4 \<longrightarrow>
      length (stage_calls env pl (limited_sub_questions pl (Some qs)) ''web_search'' st) = 1) \<and>
   (length qs = 3 \<longrightarrow>
      stage_calls env pl (limited_sub_questions pl (Some qs)) ''web_search'' st = map Search qs \<and>
      length (stage_calls env pl (limited_sub_questions pl (Some qs)) ''web_search'' st) = 3)"
proof -
  have four: "length qs = 4 \<Longrightarrow> length (limited_sub_questions pl (Some qs)) = 4"
    using limited_Some [of qs pl] by (cases qs) auto
  have three: "length qs = 3 \<Longrightarrow> limited_sub_questions pl (Some qs) = qs"
    using limited_Some [of qs pl] by (cases qs) auto
  show ?thesis
    using four three
    by (simp add: limited_le limited_Some stage_calls_web_search stage_results_web_search
        get_or_def)
qed

theorem web_search_stage_invocations_witness:
  "plan_query search_only_plan = Some ''ai jobs'' \<and>
   length (limited_sub_questions search_only_plan (Some [''q1'', ''q2'', ''q3'', ''q4''])) > 3 \<and>
   stage_calls sample_env search_only_plan
     (limited_sub_questions search_only_plan (Some [''q1'', ''q2'', ''q3'', ''q4'']))
     ''web_search'' (initial_run search_only_plan ()) = [Search ''ai jobs''] \<and>
   length [''q1'', ''q2'', ''q3'', ''q4''] = 4 \<and>
   length (stage_calls sample_env search_only_plan
     (limited_sub_questions search_only_plan (Some [''q1'', ''q2'', ''q3'', ''q4'']))
     ''web_search'' (initial_run search_only_plan ())) = 1 \<and>
   length [''q1'', ''q2'', ''q3''] = 3 \<and>
   stage_calls sample_env search_only_plan
     (limited_sub_questions search_only_plan (Some [''q1'', ''q2'', ''q3'']))
     ''web_search'' (initial_run search_only_plan ()) =
       [Search ''q1'', Search ''q2'', Search ''q3'']"
  using web_search_stage_invocations [of search_only_plan "Some [''q1'', ''q2'', ''q3'', ''q4'']"
      "[''q1'', ''q2'', ''q3'', ''q4'']" sample_env "initial_run search_only_plan ()" "''ai jobs''"]
    web_search_stage_invocations [of search_only_plan "Some [''q1'', ''q2'', ''q3'']"
      "[''q1'', ''q2'', ''q3'']" sample_env "initial_run search_only_plan ()" "''ai jobs''"]
  by (simp add: search_only_plan_def limited_sub_questions_def MAX_SUB_QUESTIONS_def get_or_def)

lemma scraper_stage_errors [simp]:
  "log_errors (all_results (scraper_stage env st)) = log_errors (all_results st)"
  by (simp add: scraper_stage_def split: prod.splits)

lemma scrape_loop_new_nil:
  "\<exists>new. fst (scrape_loop env us [] w) = new \<and> length new \<le> length us \<and>
     (\<forall>r\<in>set new. \<exists>u w'. r = fst (execute_tool env ''scraper'' (no_kwargs\<lparr>kw_url := Some u\<rparr>) w')) \<and>
     length (filter tr_success new) \<le> 2 \<and>
     length (filter tr_success (butlast new)) < 2 \<and>
     (length new < length us \<longrightarrow> length (filter tr_success new) = 2)"
  using scrape_loop_new [of env us "[]" w] by auto

lemma scraper_stage_new:
  "\<exists>new. log_tool_results (all_results (scraper_stage env st)) =
           log_tool_results (all_results st) @ new \<and>
     length new \<le> length (take MAX_URLS_TO_SCRAPE (urls_to_scrape st)) \<and>
     (\<forall>r\<in>set new. \<exists>u w'. r = fst (execute_tool env ''scraper'' (no_kwargs\<lparr>kw_url := Some u\<rparr>) w')) \<and>
     length (filter tr_success new) \<le> 2 \<and>
     length (filter tr_success (butlast new)) < 2 \<and>
     (length new < length (take MAX_URLS_TO_SCRAPE (urls_to_scrape st)) \<longrightarrow>
        length (filter tr_success new) = 2)"
proof -
  have "log_tool_results (all_results (scraper_stage env st)) =
     log_tool_results (all_results st) @
     fst (scrape_loop env (take MAX_URLS_TO_SCRAPE (urls_to_scrape st)) [] (world st))"
    by (simp add: scraper_stage_def split: prod.splits)
  then show ?thesis
    using scrape_loop_new_nil [of env "take MAX_URLS_TO_SCRAPE (urls_to_scrape st)" "world st"]
    by simp
qed

lemma stage_results_scraper:
  "log_tool_results (all_results (scraper_stage env st)) =
     log_tool_results (all_results st) @ stage_results env pl lim ''scraper'' st"
  using scraper_stage_new [of env st] by (auto simp: stage_results_def run_stage_scraper)

lemma stage_calls_scraper:
  "stage_calls env pl lim ''scraper'' st =
     map Scrape (take (length (stage_results env pl lim ''scraper'' st))
       (take MAX_URLS_TO_SCRAPE (urls_to_scrape st)))"
  by (simp add: stage_calls_def run_stage_scraper scraper_stage_logged
      stage_results_scraper [of env st pl lim])

lemma two_successes:
  "2 \<le> length rs \<Longrightarrow> tr_success (rs ! 0) \<Longrightarrow> tr_success (rs ! 1) \<Longrightarrow>
   length (filter tr_success (butlast rs)) < 2 \<Longrightarrow> length rs = 2"
proof -
  assume a: "2 \<le> length rs" "tr_success (rs ! 0)" "tr_success (rs ! 1)"
    "length (filter tr_success (butlast rs)) < 2"
  then obtain x y zs where r: "rs = x # y # zs"
    by (cases rs; cases "tl rs") auto
  show ?thesis
  proof (cases zs)
    case Nil
    with r show ?thesis by simp
  next
    case (Cons z zs')
    with r a show ?thesis by simp
  qed
qed

text \<open>
  Claim C3. A \<open>scraper\<close> stage scrapes a prefix of the first 3 URLs of
  \<open>urls_to_scrape\<close>, in their order, one call per result. It never has more than
  2 successful results, no call follows the second success, and it stops before the
  3 URLs (or all of them, when fewer) are used only when 2 calls have succeeded. With
  5 or more URLs there are at least 2 calls, and exactly 2 when the first two succeed.
\<close>

theorem scraper_stage_invocations:
  "let rs = stage_results env pl lim ''scraper'' st;
       calls = stage_calls env pl lim ''scraper'' st;
       candidates = urls_to_scrape st
   in calls = map Scrape (take (length rs) (take 3 candidates)) \<and>
      length calls = length rs \<and> length rs \<le> 3 \<and> length rs \<le> length candidates \<and>
      length (filter tr_success rs) \<le> 2 \<and>
      length (filter tr_success (butlast rs)) < 2 \<and>
      (length rs < min 3 (length candidates) \<longrightarrow> length (filter tr_success rs) = 2) \<and>
      (5 \<le> length candidates \<longrightarrow> 2 \<le> length rs) \<and>
      (5 \<le> length candidates \<longrightarrow> tr_success (rs ! 0) \<longrightarrow> tr_success (rs ! 1) \<longrightarrow>
         length rs = 2 \<and> length calls = 2)"
proof -
  define rs where "rs = stage_results env pl lim ''scraper'' st"
  define us where "us = urls_to_scrape st"
  obtain new where n:
    "log_tool_results (all_results (scraper_stage env st)) =
       log_tool_results (all_results st) @ new"
    "length new \<le> length (take MAX_URLS_TO_SCRAPE (urls_to_scrape st))"
    "length (filter tr_success new) \<le> 2"
    "length (filter tr_success (butlast new)) < 2"
    "length new < length (take MAX_URLS_TO_SCRAPE (urls_to_scrape st)) \<longrightarrow>
        length (filter tr_success new) = 2"
    using scraper_stage_new [of env st] by auto
  have rs: "rs = new"
    using n(1) stage_results_scraper [of env st pl lim] by (simp add: rs_def)
  have calls: "stage_calls env pl lim ''scraper'' st = map Scrape (take (length rs) (take 3 us))"
    by (simp add: stage_calls_scraper rs_def us_def MAX_URLS_TO_SCRAPE_def)
  have len: "length rs \<le> 3" "length rs \<le> length us"
    using n(2) by (simp_all add: rs us_def MAX_URLS_TO_SCRAPE_def)
  have lcalls: "length (stage_calls env pl lim ''scraper'' st) = length rs"
    using len by (simp add: calls)
  have succ: "length (filter tr_success rs) \<le> 2" "length (filter tr_success (butlast rs)) < 2"
    using n(3,4) by (simp_all add: rs)
  have stop: "length rs < min 3 (length us) \<longrightarrow> length (filter tr_success rs) = 2"
    using n(5) by (simp add: rs us_def MAX_URLS_TO_SCRAPE_def)
  have atleast: "5 \<le> length us \<longrightarrow> 2 \<le> length rs"
  proof
    assume five: "5 \<le> length us"
    show "2 \<le> length rs"
    proof (rule ccontr)
      assume "\<not> 2 \<le> length rs"
      then have lt: "length rs < 2" by simp
      with five stop have "length (filter tr_success rs) = 2" by simp
      moreover have "length (filter tr_success rs) \<le> length rs" by (rule length_filter_le)
      ultimately show False using lt by simp
    qed
  qed
  have early: "5 \<le> length us \<longrightarrow> tr_success (rs ! 0) \<longrightarrow> tr_success (rs ! 1) \<longrightarrow> length rs = 2"
    using atleast two_successes [of rs] succ(2) by blast
  show ?thesis
    unfolding Let_def rs_def [symmetric] us_def [symmetric]
    using calls lcalls len succ stop atleast early by simp
qed

lemmas run_defs = stage_results_def stage_calls_def stage_errors_def run_stage_def
  scraper_stage_def web_search_stage_def data_analysis_stage_def summarizer_stage_def
  generic_stage_def check_errors_def
  execute_tool_def tools_def route_def logged_def with_log_def extend_results_def
  initial_run_def no_kwargs_def get_or_def failure_def succeeded_def
  MAX_URLS_TO_SCRAPE_def MAX_SUB_QUESTIONS_def empty_payload_def collect_urls_def
  scraped_text_def

theorem scraper_stage_invocations_witness:
  "5 \<le> length (urls_to_scrape (run_with_urls five_urls)) \<and>
   tr_success (stage_results sample_env search_only_plan [] ''scraper''
                (run_with_urls five_urls) ! 0) \<and>
   tr_success (stage_results sample_env search_only_plan [] ''scraper''
                (run_with_urls five_urls) ! 1) \<and>
   length (stage_results sample_env search_only_plan [] ''scraper''
             (run_with_urls five_urls)) = 2 \<and>
   stage_calls sample_env search_only_plan [] ''scraper'' (run_with_urls five_urls) =
     [Scrape ''http://a.org'', Scrape ''http://b.org''] \<and>
   length (stage_calls flaky_env search_only_plan [] ''scraper''
             (run_with_urls (''http://bad.org'' # five_urls))) = 3 \<and>
   length (filter tr_success (stage_results flaky_env search_only_plan [] ''scraper''
             (run_with_urls (''http://bad.org'' # five_urls)))) = 2"
proof -
  have ev: "stage_results sample_env search_only_plan [] ''scraper'' (run_with_urls five_urls) =
      [succeeded ''scraper'' (empty_payload\<lparr>p_url := Some ''http://a.org'',
          p_title := Some ''Page'', p_text := Some ''Text 42''\<rparr>),
       succeeded ''scraper'' (empty_payload\<lparr>p_url := Some ''http://b.org'',
          p_title := Some ''Page'', p_text := Some ''Text 42''\<rparr>)]"
    by (simp add: run_defs run_with_urls_def five_urls_def sample_env_def)
  have ev2: "stage_results flaky_env search_only_plan [] ''scraper''
       (run_with_urls (''http://bad.org'' # five_urls)) =
      [failure ''scraper'' ''timeout'',
       succeeded ''scraper'' (empty_payload\<lparr>p_url := Some ''http://a.org'',
          p_title := Some ''Page'', p_text := Some ''Text 42''\<rparr>),
       succeeded ''scraper'' (empty_payload\<lparr>p_url := Some ''http://b.org'',
          p_title := Some ''Page'', p_text := Some ''Text 42''\<rparr>)]"
    by (simp add: run_defs run_with_urls_def five_urls_def sample_env_def flaky_env_def)
  have c1: "stage_calls sample_env search_only_plan [] ''scraper'' (run_with_urls five_urls) =
     [Scrape ''http://a.org'', Scrape ''http://b.org'']"
    by (simp add: run_defs run_with_urls_def five_urls_def sample_env_def)
  have c2: "stage_calls flaky_env search_only_plan [] ''scraper''
       (run_with_urls (''http://bad.org'' # five_urls)) =
     [Scrape ''http://bad.org'', Scrape ''http://a.org'', Scrape ''http://b.org'']"
    by (simp add: run_defs run_with_urls_def five_urls_def sample_env_def flaky_env_def)
  have u: "urls_to_scrape (run_with_urls five_urls) = five_urls"
    by (simp add: run_with_urls_def)
  have l5: "length five_urls = 5"
    by (simp add: five_urls_def)
  show ?thesis
    using scraper_stage_invocations [of sample_env search_only_plan "[]" "run_with_urls five_urls"]
      scraper_stage_invocations [of flaky_env search_only_plan "[]"
        "run_with_urls (''http://bad.org'' # five_urls)"]
    by (simp add: Let_def ev ev2 c1 c2 u l5 succeeded_def failure_def)
qed

section \<open>Scraping when the scrape tool never raises\<close>

lemma execute_tool_scraper_returns:
  assumes "\<And>u w. \<exists>p w'. env (Scrape u) w = (Inr p, w')"
  shows "tr_success (fst (execute_tool env ''scraper'' kw w)) \<and>
         tr_error (fst (execute_tool env ''scraper'' kw w)) = None"
proof -
  obtain p w' where "env (Scrape (get_or (kw_url kw) [])) w = (Inr p, w')"
    using assms by blast
  then show ?thesis
    by (simp add: execute_tool_def route_def tools_def succeeded_def)
qed

lemma filter_all: "\<forall>x\<in>set xs. P x \<Longrightarrow> filter P xs = xs"
  by (induction xs) auto

text \<open>
  Claim C10. Suppose the scrape collaborator returns a dictionary for every URL and never
  raises. Then every result \<open>execute_tool\<close> builds for \<open>scraper\<close> has
  \<open>success = True\<close>, whatever the dictionary says inside; every result of a scraper
  stage is such a success; the stage makes exactly \<open>min(2, min(number of URLs, 3))\<close>
  calls; and the stage adds nothing to \<open>errors\<close>.
\<close>

theorem scraper_wrapper_always_succeeds:
  assumes "\<And>u w. \<exists>p w'. env (Scrape u) w = (Inr p, w')"
  shows "tr_success (fst (execute_tool env ''scraper'' kw w)) \<and>
         (\<forall>r\<in>set (stage_results env pl lim ''scraper'' st). tr_success r \<and> tr_error r = None) \<and>
         length (stage_results env pl lim ''scraper'' st) =
           min 2 (min (length (urls_to_scrape st)) 3) \<and>
         length (stage_calls env pl lim ''scraper'' st) =
           min 2 (min (length (urls_to_scrape st)) 3) \<and>
         stage_errors env pl lim ''scraper'' st = [] \<and>
         log_errors (all_results (run_stage env pl lim ''scraper'' st)) =
           log_errors (all_results st)"
proof -
  define rs where "rs = stage_results env pl lim ''scraper'' st"
  obtain new where n:
    "log_tool_results (all_results (scraper_stage env st)) =
       log_tool_results (all_results st) @ new"
    "length new \<le> length (take MAX_URLS_TO_SCRAPE (urls_to_scrape st))"
    "\<forall>r\<in>set new. \<exists>u w'. r = fst (execute_tool env ''scraper'' (no_kwargs\<lparr>kw_url := Some u\<rparr>) w')"
    "length (filter tr_success new) \<le> 2"
    "length new < length (take MAX_URLS_TO_SCRAPE (urls_to_scrape st)) \<longrightarrow>
        length (filter tr_success new) = 2"
    using scraper_stage_new [of env st] by auto
  have ret: "tr_success (fst (execute_tool env ''scraper'' kw' w')) \<and>
         tr_error (fst (execute_tool env ''scraper'' kw' w')) = None" for kw' w'
    by (rule execute_tool_scraper_returns) (rule assms)
  have rs: "rs = new"
    using n(1) stage_results_scraper [of env st pl lim] by (simp add: rs_def)
  have ok: "\<forall>r\<in>set rs. tr_success r \<and> tr_error r = None"
    using n(3) ret unfolding rs by auto
  then have "filter tr_success rs = rs"
    by (simp add: filter_all)
  then have len: "length rs = min 2 (min (length (urls_to_scrape st)) 3)"
    using n(2,4,5) unfolding rs by (auto simp: MAX_URLS_TO_SCRAPE_def min_def)
  have calls: "length (stage_calls env pl lim ''scraper'' st) = length rs"
    using n(2) unfolding rs
    by (simp add: stage_calls_scraper rs_def [symmetric] rs)
  have errs: "log_errors (all_results (run_stage env pl lim ''scraper'' st)) =
           log_errors (all_results st)"
    by (simp add: run_stage_scraper)
  show ?thesis
    using ret [of kw w] ok len calls errs
    by (simp add: rs_def stage_errors_def)
qed

theorem scraper_wrapper_always_succeeds_witness:
  "(\<forall>u w. \<exists>p w'. invalid_url_env (Scrape u) w = (Inr p, w')) \<and>
   tr_success (fst (execute_tool invalid_url_env ''scraper''
      (no_kwargs\<lparr>kw_url := Some ''not a url''\<rparr>) ())) \<and>
   length (stage_results invalid_url_env search_only_plan [] ''scraper''
      (run_with_urls five_urls)) = 2 \<and>
   length (stage_calls invalid_url_env search_only_plan [] ''scraper''
      (run_with_urls five_urls)) = 2 \<and>
   stage_errors invalid_url_env search_only_plan [] ''scraper'' (run_with_urls five_urls) = [] \<and>
   map (\<lambda>r. p_text (get_or (tr_result r) empty_payload))
     (stage_results invalid_url_env search_only_plan [] ''scraper'' (run_with_urls five_urls)) =
     [Some [], Some []]"
proof -
  have h: "\<exists>p w'. invalid_url_env (Scrape u) w = (Inr p, w')" for u w
    by (simp add: invalid_url_env_def)
  have u: "urls_to_scrape (run_with_urls five_urls) = five_urls"
    by (simp add: run_with_urls_def)
  have l5: "length five_urls = 5"
    by (simp add: five_urls_def)
  have ev: "map (\<lambda>r. p_text (get_or (tr_result r) empty_payload))
     (stage_results invalid_url_env search_only_plan [] ''scraper'' (run_with_urls five_urls)) =
     [Some [], Some []]"
    by (simp add: run_defs run_with_urls_def five_urls_def invalid_url_env_def)
  have h': "\<forall>u w. \<exists>p w'. invalid_url_env (Scrape u) w = (Inr p, w')"
    using h by blast
  show ?thesis
    using h' scraper_wrapper_always_succeeds [of invalid_url_env
        "no_kwargs\<lparr>kw_url := Some ''not a url''\<rparr>" "()" search_only_plan "[]"
        "run_with_urls five_urls", OF h]
    by (simp add: u l5 ev)
qed

section \<open>The analysis and summarizer stages\<close>

lemma analysis_text_concat:
  "analysis_text rs acc = acc @ concat (map (\<lambda>t. t @ '' '') (scrape_texts rs))"
  by (induction rs arbitrary: acc) (simp_all add: scrape_texts_def)

lemma stage_calls_data_analysis:
  "stage_calls env pl lim ''data_analysis'' st =
     (if analysis_text (log_tool_results (all_results st)) [] \<noteq> []
      then [Analyze (Some (analysis_text (log_tool_results (all_results st)) [])) None True]
      else [])"
  by (simp add: stage_calls_def run_stage_data_analysis data_analysis_stage_logged
      check_errors_with_log_pair)

lemma run_stage_data_analysis_skip:
  "analysis_text (log_tool_results (all_results st)) [] = [] \<Longrightarrow>
     run_stage env pl lim ''data_analysis'' st = st"
  by (simp add: run_stage_data_analysis data_analysis_stage_def)

lemma stage_results_data_analysis:
  "length (stage_results env pl lim ''data_analysis'' st) =
     (if analysis_text (log_tool_results (all_results st)) [] \<noteq> [] then 1 else 0)"
  by (simp add: stage_results_def run_stage_data_analysis data_analysis_stage_def Let_def
      split: prod.splits)

text \<open>
  Claim C8, as the code has it. The buffer of a \<open>data_analysis\<close> stage is every prior
  successful scraper result's text followed by one space, in the order of the log. It is
  non-empty exactly when the log holds a successful scraper result, whatever the texts.
  Then the stage calls the analysis once, with the buffer and \<open>create_chart = True\<close>,
  and appends one result; otherwise it makes no call and leaves the whole state as it
  was: no result, no error.
\<close>

theorem data_analysis_stage_buffer:
  "analysis_text (log_tool_results (all_results st)) [] =
     concat (map (\<lambda>t. t @ '' '') (scrape_texts (log_tool_results (all_results st)))) \<and>
   (analysis_text (log_tool_results (all_results st)) [] \<noteq> [] \<longleftrightarrow>
      scrape_texts (log_tool_results (all_results st)) \<noteq> []) \<and>
   stage_calls env pl lim ''data_analysis'' st =
     (if scrape_texts (log_tool_results (all_results st)) \<noteq> []
      then [Analyze (Some (analysis_text (log_tool_results (all_results st)) [])) None True]
      else []) \<and>
   length (stage_results env pl lim ''data_analysis'' st) =
     (if scrape_texts (log_tool_results (all_results st)) \<noteq> [] then 1 else 0) \<and>
   (scrape_texts (log_tool_results (all_results st)) = [] \<longrightarrow>
      run_stage env pl lim ''data_analysis'' st = st)"
proof -
  have b: "analysis_text (log_tool_results (all_results st)) [] =
     concat (map (\<lambda>t. t @ '' '') (scrape_texts (log_tool_results (all_results st))))"
    by (simp add: analysis_text_concat)
  have ne: "analysis_text (log_tool_results (all_results st)) [] \<noteq> [] \<longleftrightarrow>
      scrape_texts (log_tool_results (all_results st)) \<noteq> []"
    unfolding b by (cases "scrape_texts (log_tool_results (all_results st))") simp_all
  show ?thesis
    using b ne run_stage_data_analysis_skip [of st env pl lim]
    by (simp add: stage_calls_data_analysis stage_results_data_analysis)
qed

text \<open>
  Claim C8 as stated fails after a scrape that returned an empty text: the texts joined
  by spaces are the empty string, and the stage still calls the analysis, with a buffer
  of one space.
\<close>

theorem data_analysis_not_iff_space_joined:
  "str_join '' '' (scrape_texts (log_tool_results (all_results after_invalid_scrape))) = [] \<and>
   stage_calls invalid_url_env search_only_plan [] ''data_analysis'' after_invalid_scrape =
     [Analyze (Some '' '') None True] \<and>
   \<not> (stage_calls invalid_url_env search_only_plan [] ''data_analysis'' after_invalid_scrape \<noteq> []
        \<longleftrightarrow>
      str_join '' '' (scrape_texts (log_tool_results (all_results after_invalid_scrape))) \<noteq> [])"
  by (simp add: after_invalid_scrape_def run_defs run_with_urls_def invalid_url_env_def
      scrape_texts_def search_only_plan_def)

theorem data_analysis_stage_buffer_witness:
  "scrape_texts (log_tool_results (all_results (initial_run search_only_plan ()))) = [] \<and>
   run_stage sample_env search_only_plan [] ''data_analysis'' (initial_run search_only_plan ()) =
     initial_run search_only_plan () \<and>
   stage_calls sample_env search_only_plan [] ''data_analysis''
     (initial_run search_only_plan ()) = [] \<and>
   scrape_texts (log_tool_results (all_results after_two_scrapes)) = [''Text 42'', ''Text 42''] \<and>
   stage_calls sample_env search_only_plan [] ''data_analysis'' after_two_scrapes =
     [Analyze (Some ''Text 42 Text 42 '') None True]"
proof -
  have t0: "scrape_texts (log_tool_results (all_results (initial_run search_only_plan ()))) = []"
    by (simp add: scrape_texts_def initial_run_def)
  have t2: "scrape_texts (log_tool_results (all_results after_two_scrapes)) =
      [''Text 42'', ''Text 42'']"
    by (simp add: after_two_scrapes_def run_defs run_with_urls_def five_urls_def sample_env_def
        scrape_texts_def)
  show ?thesis
    using data_analysis_stage_buffer [of "initial_run search_only_plan ()" sample_env
        search_only_plan "[]"]
      data_analysis_stage_buffer [of after_two_scrapes sample_env search_only_plan "[]"]
    by (simp add: t0 t2)
qed

lemma summary_text_prefix:
  "\<exists>k\<le>length (scrape_texts rs).
     summary_text rs acc = acc @ concat (map chunk (take k (scrape_texts rs))) \<and>
     (k < length (scrape_texts rs) \<longrightarrow> length (summary_text rs acc) > 3000) \<and>
     (\<forall>j. 0 < j \<and> j < k \<longrightarrow>
        length (acc @ concat (map chunk (take j (scrape_texts rs)))) \<le> 3000)"
proof (induction rs arbitrary: acc)
  case Nil
  show ?case by (simp add: scrape_texts_def)
next
  case (Cons r rs)
  show ?case
  proof (cases "tr_tool r = ''scraper'' \<and> tr_success r")
    case False
    then have "scrape_texts (r # rs) = scrape_texts rs" "summary_text (r # rs) acc = summary_text rs acc"
      by (auto simp: scrape_texts_def)
    then show ?thesis using Cons.IH [of acc] by simp
  next
    case True
    then have st: "scrape_texts (r # rs) = scraped_text r # scrape_texts rs"
      by (simp add: scrape_texts_def)
    let ?acc' = "acc @ chunk (scraped_text r)"
    show ?thesis
    proof (cases "length ?acc' > 3000")
      case big: True
      then have "summary_text (r # rs) acc = ?acc'"
        using True by (simp add: chunk_def)
      then show ?thesis
        using big st by (intro exI [of _ 1]) simp
    next
      case small: False
      then have s: "summary_text (r # rs) acc = summary_text rs ?acc'"
        using True by (simp add: chunk_def)
      from Cons.IH [of ?acc'] obtain k where k: "k \<le> length (scrape_texts rs)"
        "summary_text rs ?acc' = ?acc' @ concat (map chunk (take k (scrape_texts rs)))"
        "k < length (scrape_texts rs) \<longrightarrow> length (summary_text rs ?acc') > 3000"
        "\<forall>j. 0 < j \<and> j < k \<longrightarrow>
           length (?acc' @ concat (map chunk (take j (scrape_texts rs)))) \<le> 3000"
        by blast
      have "\<forall>j. 0 < j \<and> j < Suc k \<longrightarrow>
          length (acc @ concat (map chunk (take j (scrape_texts (r # rs))))) \<le> 3000"
      proof (intro allI impI)
        fix j assume j: "0 < j \<and> j < Suc k"
        then obtain j' where j': "j = Suc j'" by (cases j) auto
        show "length (acc @ concat (map chunk (take j (scrape_texts (r # rs))))) \<le> 3000"
        proof (cases "j' = 0")
          case True
          then show ?thesis using small j' st by simp
        next
          case False
          then show ?thesis using k(4) j j' st by simp
        qed
      qed
      then show ?thesis
        using k s st by (intro exI [of _ "Suc k"]) simp
    qed
  qed
qed

lemma stage_calls_summarizer:
  "stage_calls env pl lim ''summarizer'' st =
     (if summary_text (log_tool_results (all_results st)) [] \<noteq> []
      then [Summarize (take 3000 (summary_text (log_tool_results (all_results st)) []))
              (Some 150) ''concise'']
      else [])"
  by (simp add: stage_calls_def run_stage_summarizer summarizer_stage_logged
      check_errors_with_log_pair)

lemma run_stage_summarizer_skip:
  "summary_text (log_tool_results (all_results st)) [] = [] \<Longrightarrow>
     run_stage env pl lim ''summarizer'' st = st"
  by (simp add: run_stage_summarizer summarizer_stage_def)

lemma stage_results_summarizer:
  "length (stage_results env pl lim ''summarizer'' st) =
     (if summary_text (log_tool_results (all_results st)) [] \<noteq> [] then 1 else 0)"
  by (simp add: stage_results_def run_stage_summarizer summarizer_stage_def Let_def
      split: prod.splits)

lemma summary_text_empty: "summary_text rs [] = [] \<longleftrightarrow> scrape_texts rs = []"
proof (induction rs)
  case Nil
  show ?case by (simp add: scrape_texts_def)
next
  case (Cons r rs)
  show ?case
  proof (cases "tr_tool r = ''scraper'' \<and> tr_success r")
    case False
    then show ?thesis using Cons by (auto simp: scrape_texts_def)
  next
    case True
    obtain k where "summary_text rs (chunk (scraped_text r)) =
        chunk (scraped_text r) @ concat (map chunk (take k (scrape_texts rs)))"
      using summary_text_prefix [of rs "chunk (scraped_text r)"] by blast
    then have "summary_text rs (chunk (scraped_text r)) \<noteq> []"
      by (simp add: chunk_def)
    then show ?thesis
      using True by (auto simp: scrape_texts_def chunk_def)
  qed
qed

text \<open>
  Claim C7. The buffer of a \<open>summarizer\<close> stage is, for the first \<open>k\<close> prior
  successful scraper results, the first 2000 characters of the text followed by a blank
  line; it stops before all results are used only when the buffer is longer than 3000
  characters, and no shorter prefix of it was. A non-empty buffer gives exactly one call,
  with the first 3000 characters of the buffer, \<open>max_length = 150\<close> and style
  \<open>concise\<close>, and one result; an empty buffer, which means no successful scraper
  result, gives no call and leaves the whole state as it was.
\<close>

theorem summarizer_stage_buffer:
  "(\<exists>k\<le>length (scrape_texts (log_tool_results (all_results st))).
      summary_text (log_tool_results (all_results st)) [] =
        concat (map chunk (take k (scrape_texts (log_tool_results (all_results st))))) \<and>
      (k < length (scrape_texts (log_tool_results (all_results st))) \<longrightarrow>
         length (summary_text (log_tool_results (all_results st)) []) > 3000) \<and>
      (\<forall>j<k. length (concat (map chunk
          (take j (scrape_texts (log_tool_results (all_results st)))))) \<le> 3000)) \<and>
   (\<forall>t. chunk t = take 2000 t @ ''\<newline>\<newline>'') \<and>
   stage_calls env pl lim ''summarizer'' st =
     (if summary_text (log_tool_results (all_results st)) [] \<noteq> []
      then [Summarize (take 3000 (summary_text (log_tool_results (all_results st)) []))
              (Some 150) ''concise'']
      else []) \<and>
   length (take 3000 (summary_text (log_tool_results (all_results st)) [])) \<le> 3000 \<and>
   length (stage_results env pl lim ''summarizer'' st) =
     (if summary_text (log_tool_results (all_results st)) [] \<noteq> [] then 1 else 0) \<and>
   (summary_text (log_tool_results (all_results st)) [] = [] \<longrightarrow>
      run_stage env pl lim ''summarizer'' st = st) \<and>
   (summary_text (log_tool_results (all_results st)) [] = [] \<longleftrightarrow>
      scrape_texts (log_tool_results (all_results st)) = [])"
proof -
  let ?rs = "log_tool_results (all_results st)"
  obtain k where k: "k \<le> length (scrape_texts ?rs)"
     "summary_text ?rs [] = [] @ concat (map chunk (take k (scrape_texts ?rs)))"
     "k < length (scrape_texts ?rs) \<longrightarrow> length (summary_text ?rs []) > 3000"
     "\<forall>j. 0 < j \<and> j < k \<longrightarrow>
        length ([] @ concat (map chunk (take j (scrape_texts ?rs)))) \<le> 3000"
    using summary_text_prefix [of ?rs "[]"] by blast
  have "\<forall>j<k. length (concat (map chunk (take j (scrape_texts ?rs)))) \<le> 3000"
  proof (intro allI impI)
    fix j assume "j < k"
    then show "length (concat (map chunk (take j (scrape_texts ?rs)))) \<le> 3000"
      using k(4) by (cases "j = 0") auto
  qed
  then have first: "\<exists>k\<le>length (scrape_texts ?rs).
      summary_text ?rs [] = concat (map chunk (take k (scrape_texts ?rs))) \<and>
      (k < length (scrape_texts ?rs) \<longrightarrow> length (summary_text ?rs []) > 3000) \<and>
      (\<forall>j<k. length (concat (map chunk (take j (scrape_texts ?rs)))) \<le> 3000)"
    using k by (intro exI [of _ k]) simp
  show ?thesis
    using first run_stage_summarizer_skip [of st env pl lim] summary_text_empty [of ?rs]
    by (simp add: stage_calls_summarizer stage_results_summarizer chunk_def)
qed

theorem summarizer_stage_buffer_witness:
  "summary_text (log_tool_results (all_results (initial_run search_only_plan ()))) [] = [] \<and>
   run_stage sample_env search_only_plan [] ''summarizer'' (initial_run search_only_plan ()) =
     initial_run search_only_plan () \<and>
   stage_calls sample_env search_only_plan [] ''summarizer'' after_two_scrapes =
     [Summarize ''Text 42\<newline>\<newline>Text 42\<newline>\<newline>'' (Some 150) ''concise''] \<and>
   length (scrape_texts (log_tool_results (all_results after_long_scrapes))) = 4 \<and>
   summary_text (log_tool_results (all_results after_long_scrapes)) [] =
     concat (map chunk (take 2 (scrape_texts (log_tool_results (all_results after_long_scrapes))))) \<and>
   length (summary_text (log_tool_results (all_results after_long_scrapes)) []) = 4004 \<and>
   stage_calls long_text_env search_only_plan [] ''summarizer'' after_long_scrapes =
     [Summarize (replicate 2000 CHR ''x'' @ ''\<newline>\<newline>'' @ replicate 998 CHR ''x'')
        (Some 150) ''concise'']"
proof -
  have t0: "summary_text (log_tool_results (all_results (initial_run search_only_plan ()))) [] = []"
    by (simp add: initial_run_def)
  have t2: "summary_text (log_tool_results (all_results after_two_scrapes)) [] =
      ''Text 42\<newline>\<newline>Text 42\<newline>\<newline>''"
    by (simp add: after_two_scrapes_def run_defs run_with_urls_def five_urls_def sample_env_def)
  have rs: "log_tool_results (all_results after_long_scrapes) =
      map (\<lambda>u. succeeded ''scraper'' (empty_payload\<lparr>p_url := Some u, p_title := Some ''Long'',
                  p_text := Some (replicate 2500 CHR ''x'')\<rparr>))
        [''http://a.org'', ''http://b.org'', ''http://a.org'', ''http://b.org'']"
    by (simp add: after_long_scrapes_def run_defs run_with_urls_def five_urls_def
        long_text_env_def)
  have tx: "scrape_texts (log_tool_results (all_results after_long_scrapes)) =
      [replicate 2500 CHR ''x'', replicate 2500 CHR ''x'', replicate 2500 CHR ''x'',
       replicate 2500 CHR ''x'']"
    unfolding rs by (simp add: scrape_texts_def succeeded_def scraped_text_def get_or_def)
  have bf: "summary_text (log_tool_results (all_results after_long_scrapes)) [] =
      replicate 2000 CHR ''x'' @ ''\<newline>\<newline>'' @ replicate 2000 CHR ''x'' @ ''\<newline>\<newline>''"
    unfolding rs by (simp add: succeeded_def scraped_text_def get_or_def)
  have tk: "take 3000 (replicate 2000 CHR ''x'' @ ''\<newline>\<newline>'' @ replicate 2000 CHR ''x'' @
        ''\<newline>\<newline>'') =
      replicate 2000 CHR ''x'' @ ''\<newline>\<newline>'' @ replicate 998 CHR ''x''"
    by simp
  show ?thesis
    using summarizer_stage_buffer [of "initial_run search_only_plan ()" sample_env
        search_only_plan "[]"]
      summarizer_stage_buffer [of after_two_scrapes sample_env search_only_plan "[]"]
      summarizer_stage_buffer [of after_long_scrapes long_text_env search_only_plan "[]"]
    by (simp add: t0 t2 tx bf tk chunk_def)
qed

section \<open>Citation extraction\<close>

lemma first_by_url_filter:
  "first_by_url (filter (\<lambda>q. Q (fst q)) xs) = filter (\<lambda>q. Q (fst q)) (first_by_url xs)"
proof (induction xs)
  case Nil
  show ?case by simp
next
  case (Cons p xs)
  show ?case
  proof (cases "Q (fst p)")
    case True
    have "filter (\<lambda>q. fst q \<noteq> fst p) (filter (\<lambda>q. Q (fst q)) (first_by_url xs)) =
          filter (\<lambda>q. Q (fst q)) (filter (\<lambda>q. fst q \<noteq> fst p) (first_by_url xs))"
      by (simp add: conj_commute)
    then show ?thesis using True Cons by simp
  next
    case False
    have "filter (\<lambda>q. Q (fst q)) (filter (\<lambda>q. fst q \<noteq> fst p) (first_by_url xs)) =
          filter (\<lambda>q. Q (fst q)) (first_by_url xs)"
      using False by (auto intro: filter_cong)
    then show ?thesis using False Cons by simp
  qed
qed

lemma first_by_url_keys: "fst ` set (first_by_url xs) = fst ` set xs"
proof (induction xs)
  case Nil
  show ?case by simp
next
  case (Cons p xs)
  have "fst ` set (filter (\<lambda>q. fst q \<noteq> fst p) (first_by_url xs)) =
        fst ` set (first_by_url xs) - {fst p}"
    by auto
  then show ?case using Cons by auto
qed

lemma first_by_url_distinct: "distinct (map fst (first_by_url xs))"
proof (induction xs)
  case Nil
  show ?case by simp
next
  case (Cons p xs)
  have "distinct (map fst (filter (\<lambda>q. fst q \<noteq> fst p) (first_by_url xs)))"
    using Cons by (simp add: distinct_map_filter)
  then show ?case by auto
qed

lemma map_of_filter_key:
  "map_of (filter (\<lambda>q. fst q \<noteq> k) xs) u = (if u = k then None else map_of xs u)"
  by (induction xs) auto

lemma first_by_url_map_of: "map_of (first_by_url xs) = map_of xs"
proof (induction xs)
  case Nil
  show ?case by simp
next
  case (Cons p xs)
  show ?case
  proof
    fix u
    show "map_of (first_by_url (p # xs)) u = map_of (p # xs) u"
      using Cons by (cases p) (simp add: map_of_filter_key)
  qed
qed

lemma fold_item_citation:
  "fold item_citation items acc =
     fold add_pair (map (\<lambda>i. (get_or (item_url i) [], get_or (item_title i) [])) items) acc"
  by (induction items arbitrary: acc) (simp_all add: item_citation_def add_pair_def)

lemma result_citations_candidates:
  "result_citations r acc = fold add_pair (result_candidates r) acc"
  by (simp add: result_citations_def result_candidates_def fold_item_citation add_pair_def)

lemma fold_result_citations:
  "fold result_citations rs acc = fold add_pair (candidates rs) acc"
  by (induction rs arbitrary: acc) (simp_all add: candidates_def result_citations_candidates)

lemma fold_add_pair:
  "fold add_pair cs (cits, seen) =
     (cits @ map citation_of (first_by_url (filter (\<lambda>p. fst p \<noteq> [] \<and> fst p \<notin> seen) cs)),
      seen \<union> {u \<in> fst ` set cs. u \<noteq> []})"
proof (induction cs arbitrary: cits seen)
  case Nil
  show ?case by simp
next
  case (Cons p cs)
  show ?case
  proof (cases "fst p \<noteq> [] \<and> fst p \<notin> seen")
    case True
    have f: "filter (\<lambda>q. fst q \<noteq> fst p)
          (first_by_url (filter (\<lambda>q. fst q \<noteq> [] \<and> fst q \<notin> seen) cs)) =
        first_by_url (filter (\<lambda>q. fst q \<noteq> [] \<and> fst q \<notin> insert (fst p) seen) cs)"
      using first_by_url_filter [of "\<lambda>k. k \<noteq> fst p" "filter (\<lambda>q. fst q \<noteq> [] \<and> fst q \<notin> seen) cs"]
      by (simp add: conj_commute conj_left_commute)
    have "add_pair p (cits, seen) = (cits @ [citation_of p], insert (fst p) seen)"
      using True by (simp add: add_pair_def add_citation_def citation_of_def)
    then show ?thesis
      using True Cons.IH [of "cits @ [citation_of p]" "insert (fst p) seen"] f by auto
  next
    case False
    then have "add_pair p (cits, seen) = (cits, seen)"
      by (auto simp: add_pair_def add_citation_def)
    then show ?thesis
      using False Cons.IH [of cits seen] by auto
  qed
qed

lemma extract_citations_first_seen:
  "extract_citations rs =
     map citation_of (first_by_url (filter (\<lambda>p. fst p \<noteq> []) (candidates rs)))"
  by (simp add: extract_citations_def fold_result_citations fold_add_pair)

lemma count_one:
  "distinct (map f xs) \<Longrightarrow> u \<in> f ` set xs \<Longrightarrow> length (filter (\<lambda>x. f x = u) xs) = 1"
proof (induction xs)
  case Nil
  then show ?case by simp
next
  case (Cons x xs)
  show ?case
  proof (cases "f x = u")
    case True
    then have "u \<notin> f ` set xs" using Cons.prems(1) by auto
    then have "filter (\<lambda>x. f x = u) xs = []" by (auto simp: filter_empty_conv)
    then show ?thesis using True by simp
  next
    case False
    then show ?thesis using Cons by auto
  qed
qed

lemma c_url_citation_of [simp]: "c_url (citation_of p) = fst p"
  by (simp add: citation_of_def)

lemma urls_extract_citations:
  "map c_url (extract_citations rs) =
     map fst (first_by_url (filter (\<lambda>p. fst p \<noteq> []) (candidates rs)))"
  by (simp add: extract_citations_first_seen comp_def)

lemma extract_citations_distinct: "distinct (map c_url (extract_citations rs))"
  by (simp add: urls_extract_citations first_by_url_distinct)

lemma extract_citations_urls:
  "c_url ` set (extract_citations rs) = {u \<in> fst ` set (candidates rs). u \<noteq> []}"
proof -
  have "c_url ` set (extract_citations rs) = set (map c_url (extract_citations rs))"
    by simp
  also have "\<dots> = fst ` set (first_by_url (filter (\<lambda>p. fst p \<noteq> []) (candidates rs)))"
    by (simp add: urls_extract_citations)
  also have "\<dots> = fst ` set (filter (\<lambda>p. fst p \<noteq> []) (candidates rs))"
    by (rule first_by_url_keys)
  also have "\<dots> = {u \<in> fst ` set (candidates rs). u \<noteq> []}"
    by auto
  finally show ?thesis .
qed

lemma map_of_filter_nonempty:
  "u \<noteq> [] \<Longrightarrow> map_of (filter (\<lambda>p. fst p \<noteq> []) xs) u = map_of xs u"
  by (induction xs) auto

lemma extract_citations_titles:
  assumes "c \<in> set (extract_citations rs)"
  shows "\<exists>t. map_of (candidates rs) (c_url c) = Some t \<and>
             c_title c = (if t \<noteq> [] then t else c_url c)"
proof -
  let ?cs = "filter (\<lambda>p. fst p \<noteq> []) (candidates rs)"
  obtain p where p: "p \<in> set (first_by_url ?cs)" "c = citation_of p"
    using assms by (auto simp: extract_citations_first_seen)
  have d: "distinct (map fst (first_by_url ?cs))"
    by (rule first_by_url_distinct)
  have "map_of (first_by_url ?cs) (fst p) = Some (snd p)"
    using p(1) d by (intro map_of_is_SomeI) simp_all
  then have m: "map_of ?cs (fst p) = Some (snd p)"
    by (simp add: first_by_url_map_of)
  have "fst p \<in> fst ` set ?cs"
    using p(1) first_by_url_keys [of ?cs] by blast
  then have "fst p \<noteq> []" by auto
  then have "map_of (candidates rs) (fst p) = Some (snd p)"
    using m by (simp add: map_of_filter_nonempty)
  then show ?thesis
    using p(2) by (simp add: citation_of_def)
qed

text \<open>
  Claim C5. \<open>extract_citations\<close> goes through the results in order and takes URL and
  title pairs from the successful ones only. Its output is the pairs with a non-empty URL,
  deduplicated by the exact URL in first-seen order, each made a citation whose title is
  the URL when the title is missing or empty. So the URLs of the output are distinct, they
  are exactly the non-empty URLs offered, every citation carries the title of the first
  pair with its URL, and a URL offered by two search results gives exactly one citation,
  with the title seen first.
\<close>

theorem extract_citations_first_seen_dedup:
  "extract_citations rs =
     map citation_of (first_by_url (filter (\<lambda>p. fst p \<noteq> []) (candidates rs))) \<and>
   distinct (map c_url (extract_citations rs)) \<and>
   c_url ` set (extract_citations rs) = {u \<in> fst ` set (candidates rs). u \<noteq> []} \<and>
   (\<forall>c\<in>set (extract_citations rs).
      \<exists>t. map_of (candidates rs) (c_url c) = Some t \<and>
          c_title c = (if t \<noteq> [] then t else c_url c)) \<and>
   (u \<noteq> [] \<longrightarrow> u \<in> fst ` set (candidates rs) \<longrightarrow>
      length (filter (\<lambda>c. c_url c = u) (extract_citations rs)) = 1) \<and>
   (u \<noteq> [] \<longrightarrow> t1 \<noteq> [] \<longrightarrow>
      extract_citations
        [succeeded ''web_search'' (empty_payload\<lparr>p_results :=
           Some [\<lparr>item_url = Some u, item_title = Some t1, item_more = m1\<rparr>]\<rparr>),
         succeeded ''web_search'' (empty_payload\<lparr>p_results :=
           Some [\<lparr>item_url = Some u, item_title = Some t2, item_more = m2\<rparr>]\<rparr>)] =
        [\<lparr>c_title = t1, c_url = u\<rparr>])"
proof -
  have one: "u \<noteq> [] \<longrightarrow> u \<in> fst ` set (candidates rs) \<longrightarrow>
      length (filter (\<lambda>c. c_url c = u) (extract_citations rs)) = 1"
    using count_one [of c_url "extract_citations rs" u] extract_citations_distinct [of rs]
      extract_citations_urls [of rs] by auto
  have two: "u \<noteq> [] \<longrightarrow> t1 \<noteq> [] \<longrightarrow>
      extract_citations
        [succeeded ''web_search'' (empty_payload\<lparr>p_results :=
           Some [\<lparr>item_url = Some u, item_title = Some t1, item_more = m1\<rparr>]\<rparr>),
         succeeded ''web_search'' (empty_payload\<lparr>p_results :=
           Some [\<lparr>item_url = Some u, item_title = Some t2, item_more = m2\<rparr>]\<rparr>)] =
        [\<lparr>c_title = t1, c_url = u\<rparr>]"
    by (simp add: extract_citations_def result_citations_def item_citation_def add_citation_def
        succeeded_def empty_payload_def get_or_def)
  show ?thesis
    using one two extract_citations_titles [of _ rs]
    by (simp add: extract_citations_first_seen [symmetric] extract_citations_distinct
        extract_citations_urls)
qed

theorem extract_citations_first_seen_dedup_witness:
  "extract_citations duplicate_results =
     [\<lparr>c_title = ''First'', c_url = ''http://a.org''\<rparr>,
      \<lparr>c_title = ''http://b.org'', c_url = ''http://b.org''\<rparr>,
      \<lparr>c_title = ''Third'', c_url = ''http://c.org''\<rparr>] \<and>
   ''http://a.org'' \<noteq> [] \<and> ''http://a.org'' \<in> fst ` set (candidates duplicate_results) \<and>
   length (filter (\<lambda>c. c_url c = ''http://a.org'') (extract_citations duplicate_results)) = 1 \<and>
   map_of (candidates duplicate_results) ''http://a.org'' = Some ''First'' \<and>
   ''First'' \<noteq> [] \<and>
   extract_citations
        [succeeded ''web_search'' (empty_payload\<lparr>p_results :=
           Some [\<lparr>item_url = Some ''http://a.org'', item_title = Some ''First'', item_more = []\<rparr>]\<rparr>),
         succeeded ''web_search'' (empty_payload\<lparr>p_results :=
           Some [\<lparr>item_url = Some ''http://a.org'', item_title = Some ''Second'', item_more = []\<rparr>]\<rparr>)] =
        [\<lparr>c_title = ''First'', c_url = ''http://a.org''\<rparr>]"
proof -
  have c: "candidates duplicate_results =
     [(''http://a.org'', ''First''), (''http://b.org'', []), (''http://c.org'', ''Third''),
      (''http://a.org'', ''Second''), (''http://a.org'', ''Page'')]"
    by (simp add: candidates_def result_candidates_def duplicate_results_def succeeded_def
        failure_def empty_payload_def get_or_def)
  show ?thesis
    using extract_citations_first_seen_dedup [of duplicate_results "''http://a.org''" "''First''"
        "[]" "''Second''" "[]"]
    by (simp add: c citation_of_def)
qed

end
